theory Spec2Isabelle
  imports Main "HOL-Library.Sublist"
begin

section \<open>Test data store (TestDataManager)\<close>

text \<open>
  The data store of \<^verbatim>\<open>ITestDataManager.h\<close> and \<^verbatim>\<open>TestDataManager.cpp\<close>: data sets
  keyed by id, a second map from data-set name to id, and the two id counters. C++
  \<^verbatim>\<open>int\<close> values are only stored and compared here, so they are HOL integers;
  \<^verbatim>\<open>std::string\<close> is a list of bytes.
\<close>

record TestDataItem =
  item_id :: int
  item_name :: string
  item_type :: string
  item_value :: string
  item_description :: string
  item_project_id :: int
  item_created_at :: string
  item_last_modified :: string

record TestDataSet =
  ds_id :: int
  ds_name :: string
  ds_description :: string
  ds_project_id :: int
  items :: "TestDataItem list"
  ds_created_at :: string
  ds_last_modified :: string

record TestDataManager =
  dataSets :: "int \<rightharpoonup> TestDataSet"
  dataSetNameMap :: "string \<rightharpoonup> int"
  nextDataSetId :: int
  nextDataItemId :: int

text \<open>Every failure of the data manager is a \<^verbatim>\<open>TestDataException\<close> carrying its message.\<close>

datatype error = TestDataException string

text \<open>\<^verbatim>\<open>std::to_string\<close> on an \<^verbatim>\<open>int\<close>: decimal digits, a minus sign for negatives.\<close>

fun nat_to_string :: "nat \<Rightarrow> string" where
  "nat_to_string n =
     (if n < 10 then [char_of (48 + n)]
      else nat_to_string (n div 10) @ [char_of (48 + n mod 10)])"

definition to_string :: "int \<Rightarrow> string" where
  "to_string i = (if i < 0 then CHR ''-'' # nat_to_string (nat (- i)) else nat_to_string (nat i))"

definition quote :: "string \<Rightarrow> string" where
  "quote s = [CHR 0x27] @ s @ [CHR 0x27]"

definition checkDataSetExists :: "TestDataManager \<Rightarrow> int \<Rightarrow> error + unit" where
  "checkDataSetExists m dataSetId =
     (case dataSets m dataSetId of
        None \<Rightarrow> Inl (TestDataException
                 (''DataSet with ID '' @ to_string dataSetId @ '' does not exist''))
      | Some _ \<Rightarrow> Inr ())"

text \<open>
  \<^verbatim>\<open>getDataItemByName\<close>: the first item of the data set with the given name, an
  exception when the data set or the item is missing.
\<close>

definition getDataItemByName :: "TestDataManager \<Rightarrow> int \<Rightarrow> string \<Rightarrow> error + TestDataItem" where
  "getDataItemByName m dataSetId name =
     (case checkDataSetExists m dataSetId of
        Inl e \<Rightarrow> Inl e
      | Inr _ \<Rightarrow>
          (case dataSets m dataSetId of
             None \<Rightarrow> Inl (TestDataException
                      (''DataSet with ID '' @ to_string dataSetId @ '' does not exist''))
           | Some dataSet \<Rightarrow>
               (case find (\<lambda>item. item_name item = name) (items dataSet) of
                  Some item \<Rightarrow> Inr item
                | None \<Rightarrow> Inl (TestDataException
                      (''DataItem with name '' @ quote name @ '' not found in DataSet ''
                         @ to_string dataSetId)))))"

text \<open>
  \<^verbatim>\<open>createDataSet\<close> and \<^verbatim>\<open>addDataItem\<close>, which fill the store. The clock reading of
  \<^verbatim>\<open>getCurrentTime\<close> is the argument \<open>now\<close>.
\<close>

definition createDataSet ::
  "string \<Rightarrow> TestDataManager \<Rightarrow> TestDataSet \<Rightarrow> error + int \<times> TestDataManager" where
  "createDataSet now m dataSet =
     (if dataSetNameMap m (ds_name dataSet) \<noteq> None then
        Inl (TestDataException
               (''DataSet with name '' @ quote (ds_name dataSet) @ '' already exists''))
      else
        (let newId = nextDataSetId m;
             newDataSet = dataSet\<lparr>ds_id := newId, ds_created_at := now, ds_last_modified := now\<rparr>
         in Inr (newId,
                 m\<lparr>dataSets := (dataSets m)(newId \<mapsto> newDataSet),
                   dataSetNameMap := (dataSetNameMap m)(ds_name dataSet \<mapsto> newId),
                   nextDataSetId := newId + 1\<rparr>)))"

definition addDataItem ::
  "string \<Rightarrow> TestDataManager \<Rightarrow> int \<Rightarrow> TestDataItem \<Rightarrow> error + int \<times> TestDataManager" where
  "addDataItem now m dataSetId dataItem =
     (case dataSets m dataSetId of
        None \<Rightarrow> Inl (TestDataException
                 (''DataSet with ID '' @ to_string dataSetId @ '' does not exist''))
      | Some dataSet \<Rightarrow>
          if find (\<lambda>item. item_name item = item_name dataItem) (items dataSet) \<noteq> None then
            Inl (TestDataException
                   (''DataItem with name '' @ quote (item_name dataItem)
                      @ '' already exists in DataSet '' @ to_string dataSetId))
          else
            (let newId = nextDataItemId m;
                 newItem = dataItem\<lparr>item_id := newId, item_project_id := ds_project_id dataSet,
                             item_created_at := now, item_last_modified := now\<rparr>;
                 dataSet' = dataSet\<lparr>items := items dataSet @ [newItem], ds_last_modified := now\<rparr>
             in Inr (newId,
                     m\<lparr>dataSets := (dataSets m)(dataSetId \<mapsto> dataSet'),
                       nextDataItemId := newId + 1\<rparr>)))"

text \<open>A freshly constructed manager.\<close>

definition empty_manager :: TestDataManager where
  "empty_manager =
     \<lparr>dataSets = Map.empty, dataSetNameMap = Map.empty, nextDataSetId = 1, nextDataItemId = 1\<rparr>"

section \<open>The reference pattern\<close>

text \<open>
  Both resolver functions use the regular expression
  \<^verbatim>\<open>\$\{([^.]+)\.([^}]+)\}\<close>. A match that starts at the head of a string
  reads \<^verbatim>\<open>${\<close>, then the first group. The group cannot contain a dot and must be
  followed by one, so it is the whole run of characters up to the next dot; it must not be
  empty. The second group likewise is the non-empty run up to the next closing brace. No
  other split of the text matches, so backtracking never yields a different match.
  \<open>match_here\<close> returns both groups and the text after the match.
\<close>

definition match_here :: "string \<Rightarrow> (string \<times> string \<times> string) option" where
  "match_here s =
     (case s of
        c1 # c2 # r \<Rightarrow>
          if c1 = CHR ''$'' \<and> c2 = CHR ''{'' then
            (let dataSetName = takeWhile (\<lambda>c. c \<noteq> CHR ''.'') r;
                 r1 = dropWhile (\<lambda>c. c \<noteq> CHR ''.'') r
             in if dataSetName = [] \<or> r1 = [] then None
                else
                  (let itemName = takeWhile (\<lambda>c. c \<noteq> CHR ''}'') (tl r1);
                       r2 = dropWhile (\<lambda>c. c \<noteq> CHR ''}'') (tl r1)
                   in if itemName = [] \<or> r2 = [] then None
                      else Some (dataSetName, itemName, tl r2)))
          else None
      | _ \<Rightarrow> None)"

text \<open>\<^verbatim>\<open>std::regex_match\<close>: the whole string is one match.\<close>

definition regex_match :: "string \<Rightarrow> (string \<times> string) option" where
  "regex_match s =
     (case match_here s of
        Some (dataSetName, itemName, rest) \<Rightarrow>
          if rest = [] then Some (dataSetName, itemName) else None
      | None \<Rightarrow> None)"

text \<open>
  \<^verbatim>\<open>std::regex_search\<close>: the leftmost match. The result is the text before the
  match, the two groups and the suffix after the match.
\<close>

fun regex_search :: "string \<Rightarrow> (string \<times> string \<times> string \<times> string) option" where
  "regex_search [] = None"
| "regex_search (c # cs) =
     (case match_here (c # cs) of
        Some (dataSetName, itemName, rest) \<Rightarrow> Some ([], dataSetName, itemName, rest)
      | None \<Rightarrow>
          (case regex_search cs of
             None \<Rightarrow> None
           | Some (pre, dataSetName, itemName, rest) \<Rightarrow>
               Some (c # pre, dataSetName, itemName, rest)))"

text \<open>The text of a match, \<^verbatim>\<open>match[0]\<close>, rebuilt from its groups.\<close>

definition token_text :: "string \<Rightarrow> string \<Rightarrow> string" where
  "token_text dataSetName itemName = ''${'' @ dataSetName @ ''.'' @ itemName @ ''}''"

text \<open>
  The token grammar in the words of the specification: \<^verbatim>\<open>${<dataset>.<item>}\<close> where
  the data set has no dot and the item has no closing brace, both non-empty as the
  pattern's \<^verbatim>\<open>+\<close> demands.
\<close>

definition is_token :: "string \<Rightarrow> string \<Rightarrow> string \<Rightarrow> bool" where
  "is_token s dataSetName itemName \<longleftrightarrow>
     s = token_text dataSetName itemName \<and>
     dataSetName \<noteq> [] \<and> CHR ''.'' \<notin> set dataSetName \<and>
     itemName \<noteq> [] \<and> CHR ''}'' \<notin> set itemName"

section \<open>resolveDataReference\<close>

definition invalid_format_message :: "string \<Rightarrow> string" where
  "invalid_format_message reference =
     ''Invalid data reference format: '' @ reference @ ''. Use ${dataset_name.item_name}''"

definition dataset_not_found_message :: "string \<Rightarrow> string" where
  "dataset_not_found_message dataSetName =
     ''DataSet with name '' @ quote dataSetName @ '' not found''"

definition resolve_failed_message :: "string \<Rightarrow> string \<Rightarrow> string" where
  "resolve_failed_message reference what =
     ''Failed to resolve reference '' @ reference @ '': '' @ what"

definition resolveDataReference :: "TestDataManager \<Rightarrow> string \<Rightarrow> error + string" where
  "resolveDataReference m reference =
     (case regex_match reference of
        None \<Rightarrow> Inl (TestDataException (invalid_format_message reference))
      | Some (dataSetName, itemName) \<Rightarrow>
          (case dataSetNameMap m dataSetName of
             None \<Rightarrow> Inl (TestDataException (dataset_not_found_message dataSetName))
           | Some dataSetId \<Rightarrow>
               (case getDataItemByName m dataSetId itemName of
                  Inr dataItem \<Rightarrow> Inr (item_value dataItem)
                | Inl (TestDataException what) \<Rightarrow>
                    Inl (TestDataException (resolve_failed_message reference what)))))"

section \<open>substituteDataReferences\<close>

text \<open>
  \<^verbatim>\<open>std::string::find(pattern, pos)\<close>: the first position at or after \<open>pos\<close> where
  the pattern occurs, nothing (\<^verbatim>\<open>npos\<close>) when there is none.
\<close>

fun first_occurrence :: "string \<Rightarrow> string \<Rightarrow> nat option" where
  "first_occurrence pat [] = (if pat = [] then Some 0 else None)"
| "first_occurrence pat (c # cs) =
     (if prefix pat (c # cs) then Some 0
      else (case first_occurrence pat cs of None \<Rightarrow> None | Some k \<Rightarrow> Some (Suc k)))"

definition string_find :: "string \<Rightarrow> string \<Rightarrow> nat \<Rightarrow> nat option" where
  "string_find s pat pos =
     (if length s < pos then None
      else (case first_occurrence pat (drop pos s) of None \<Rightarrow> None | Some k \<Rightarrow> Some (pos + k)))"

text \<open>\<^verbatim>\<open>std::string::replace(pos, len, str)\<close> for a range inside the string.\<close>

definition string_replace :: "string \<Rightarrow> nat \<Rightarrow> nat \<Rightarrow> string \<Rightarrow> string" where
  "string_replace s pos len str = take pos s @ str @ drop (pos + len) s"

lemma first_occurrence_bound:
  "first_occurrence pat s = Some k \<Longrightarrow> k + length pat \<le> length s"
proof (induction s arbitrary: k)
  case Nil
  then show ?case by (simp split: if_splits)
next
  case (Cons c cs)
  show ?case
  proof (cases "prefix pat (c # cs)")
    case True
    with Cons.prems have "k = 0" by simp
    moreover from True have "length pat \<le> length (c # cs)" by (rule prefix_length_le)
    ultimately show ?thesis by simp
  next
    case False
    with Cons.prems obtain j where j: "first_occurrence pat cs = Some j" "k = Suc j"
      by (auto split: option.splits)
    from Cons.IH[OF j(1)] j(2) show ?thesis by simp
  qed
qed

lemma string_find_bound:
  "string_find s pat pos = Some p \<Longrightarrow> pos \<le> p \<and> p + length pat \<le> length s"
  by (auto simp: string_find_def split: if_splits option.splits dest!: first_occurrence_bound)

text \<open>
  The inner loop of \<^verbatim>\<open>substituteDataReferences\<close>: every occurrence of the matched text
  in \<open>result\<close>, searched from \<open>pos\<close>, is replaced by the value, and the search goes on
  behind the inserted value. The matched text is a token, hence never empty, which is what
  makes the loop end.
\<close>

function replace_loop :: "string \<Rightarrow> string \<Rightarrow> string \<Rightarrow> string \<Rightarrow> nat \<Rightarrow> string" where
  "replace_loop dataSetName itemName v result pos =
     (case string_find result (token_text dataSetName itemName) pos of
        None \<Rightarrow> result
      | Some p \<Rightarrow>
          replace_loop dataSetName itemName v
            (string_replace result p (length (token_text dataSetName itemName)) v)
            (p + length v))"
  by pat_completeness auto
termination
proof (relation "measure (\<lambda>(dataSetName, itemName, v, result, pos). length result - pos)")
  show "wf (measure (\<lambda>(dataSetName, itemName, v, result, pos). length result - pos))"
    by simp
next
  fix dataSetName itemName v :: string and result :: string and pos p :: nat
  define n where "n = length (token_text dataSetName itemName)"
  assume "string_find result (token_text dataSetName itemName) pos = Some p"
  then have bounds: "pos \<le> p" "p + n \<le> length result"
    by (auto simp: n_def dest: string_find_bound)
  have "0 < n"
    by (simp add: n_def token_text_def)
  with bounds have "length (string_replace result p n v) - (p + length v) < length result - pos"
    by (simp add: string_replace_def)
  then show "((dataSetName, itemName, v,
        string_replace result p (length (token_text dataSetName itemName)) v, p + length v),
      (dataSetName, itemName, v, result, pos))
      \<in> measure (\<lambda>(dataSetName, itemName, v, result, pos). length result - pos)"
    by (simp add: n_def)
qed

lemma match_here_shorter:
  "match_here s = Some (d, i, rest) \<Longrightarrow> length rest < length s"
proof -
  assume a: "match_here s = Some (d, i, rest)"
  then obtain r where s: "s = CHR ''$'' # CHR ''{'' # r"
    by (auto simp: match_here_def split: list.splits if_splits)
  let ?r1 = "dropWhile (\<lambda>c. c \<noteq> CHR ''.'') r"
  let ?r2 = "dropWhile (\<lambda>c. c \<noteq> CHR ''}'') (tl ?r1)"
  from a s have rest: "rest = tl ?r2" and ne: "?r1 \<noteq> []" "?r2 \<noteq> []"
    by (auto simp: match_here_def Let_def split: if_splits)
  have "length ?r2 \<le> length (tl ?r1)" by (rule length_dropWhile_le)
  moreover have "length ?r1 \<le> length r" by (rule length_dropWhile_le)
  ultimately show ?thesis using rest ne s by (cases ?r2; cases ?r1) auto
qed

lemma regex_search_shorter:
  "regex_search s = Some (pre, d, i, rest) \<Longrightarrow> length rest < length s"
proof (induction s arbitrary: pre)
  case Nil
  then show ?case by simp
next
  case (Cons c cs)
  show ?case
  proof (cases "match_here (c # cs)")
    case (Some t)
    with Cons.prems have "match_here (c # cs) = Some (d, i, rest)"
      by (cases t) auto
    then show ?thesis by (rule match_here_shorter)
  next
    case None
    with Cons.prems obtain pre' where "regex_search cs = Some (pre', d, i, rest)"
      by (auto split: option.splits)
    from Cons.IH[OF this] show ?thesis by simp
  qed
qed

text \<open>
  What one round of the outer loop does to \<open>result\<close> for a match with the given groups:
  the replacement runs only when the data-set name is known and the item is found; the
  exception of a missing item is swallowed.
\<close>

definition substitute_match :: "TestDataManager \<Rightarrow> string \<Rightarrow> string \<Rightarrow> string \<Rightarrow> string" where
  "substitute_match m dataSetName itemName result =
     (case dataSetNameMap m dataSetName of
        None \<Rightarrow> result
      | Some dataSetId \<Rightarrow>
          (case getDataItemByName m dataSetId itemName of
             Inl _ \<Rightarrow> result
           | Inr dataItem \<Rightarrow> replace_loop dataSetName itemName (item_value dataItem) result 0))"

text \<open>
  The outer loop: \<open>temp\<close> starts as the input and is cut to the suffix behind each match;
  \<open>result\<close> starts as the input too and is rewritten as a whole for every match.
\<close>

function substitute_loop :: "TestDataManager \<Rightarrow> string \<Rightarrow> string \<Rightarrow> string" where
  "substitute_loop m temp result =
     (case regex_search temp of
        None \<Rightarrow> result
      | Some (pre, dataSetName, itemName, rest) \<Rightarrow>
          substitute_loop m rest (substitute_match m dataSetName itemName result))"
  by pat_completeness auto
termination
  by (relation "measure (\<lambda>(m, temp, result). length temp)")
     (auto dest: regex_search_shorter)

definition substituteDataReferences :: "TestDataManager \<Rightarrow> string \<Rightarrow> string" where
  "substituteDataReferences m input = substitute_loop m input input"

text \<open>The groups of the matches the outer loop visits, in order.\<close>

function scanned_tokens :: "string \<Rightarrow> (string \<times> string) list" where
  "scanned_tokens temp =
     (case regex_search temp of
        None \<Rightarrow> []
      | Some (pre, dataSetName, itemName, rest) \<Rightarrow>
          (dataSetName, itemName) # scanned_tokens rest)"
  by pat_completeness auto
termination
  by (relation "measure length") (auto dest: regex_search_shorter)

section \<open>Properties of the reference pattern\<close>

declare substitute_loop.simps [simp del] scanned_tokens.simps [simp del] replace_loop.simps [simp del]

text \<open>The matcher accepts exactly the tokens of the grammar, with the groups the grammar names.\<close>

lemma match_here_sound:
  assumes "match_here s = Some (d, i, rest)"
  shows "s = token_text d i @ rest \<and> d \<noteq> [] \<and> CHR ''.'' \<notin> set d \<and> i \<noteq> [] \<and> CHR ''}'' \<notin> set i"
proof -
  from assms obtain r where s: "s = CHR ''$'' # CHR ''{'' # r"
    by (auto simp: match_here_def split: list.splits if_splits)
  let ?r1 = "dropWhile (\<lambda>c. c \<noteq> CHR ''.'') r"
  let ?r2 = "dropWhile (\<lambda>c. c \<noteq> CHR ''}'') (tl ?r1)"
  from assms s have d: "d = takeWhile (\<lambda>c. c \<noteq> CHR ''.'') r"
    and i: "i = takeWhile (\<lambda>c. c \<noteq> CHR ''}'') (tl ?r1)"
    and rest: "rest = tl ?r2" and ne: "d \<noteq> []" "i \<noteq> []" "?r1 \<noteq> []" "?r2 \<noteq> []"
    by (auto simp: match_here_def Let_def split: if_splits)
  from ne(3) have h1: "hd ?r1 = CHR ''.''"
    using hd_dropWhile[of "\<lambda>c. c \<noteq> CHR ''.''" r] by simp
  from ne(4) have h2: "hd ?r2 = CHR ''}''"
    using hd_dropWhile[of "\<lambda>c. c \<noteq> CHR ''}''" "tl ?r1"] by simp
  have "r = d @ ?r1" by (simp add: d)
  also have "?r1 = CHR ''.'' # tl ?r1" using ne(3) h1 by (cases ?r1) auto
  also have "tl ?r1 = i @ ?r2" by (simp add: i)
  also have "?r2 = CHR ''}'' # rest" using ne(4) h2 rest by (cases ?r2) auto
  finally have "r = d @ CHR ''.'' # i @ CHR ''}'' # rest" .
  with s have "s = token_text d i @ rest" by (simp add: token_text_def)
  moreover have "CHR ''.'' \<notin> set d" unfolding d using set_takeWhileD by fastforce
  moreover have "CHR ''}'' \<notin> set i" unfolding i using set_takeWhileD by fastforce
  ultimately show ?thesis using ne by simp
qed

lemma match_here_complete:
  assumes "d \<noteq> []" "CHR ''.'' \<notin> set d" "i \<noteq> []" "CHR ''}'' \<notin> set i"
  shows "match_here (token_text d i @ rest) = Some (d, i, rest)"
proof -
  have t1: "takeWhile (\<lambda>c. c \<noteq> CHR ''.'') (d @ CHR ''.'' # i @ CHR ''}'' # rest) = d"
    using assms(2) by (subst takeWhile_append2) auto
  have d1: "dropWhile (\<lambda>c. c \<noteq> CHR ''.'') (d @ CHR ''.'' # i @ CHR ''}'' # rest) = CHR ''.'' # i @ CHR ''}'' # rest"
    using assms(2) by (subst dropWhile_append2) auto
  have t2: "takeWhile (\<lambda>c. c \<noteq> CHR ''}'') (i @ CHR ''}'' # rest) = i"
    using assms(4) by (subst takeWhile_append2) auto
  have d2: "dropWhile (\<lambda>c. c \<noteq> CHR ''}'') (i @ CHR ''}'' # rest) = CHR ''}'' # rest"
    using assms(4) by (subst dropWhile_append2) auto
  show ?thesis using assms(1,3)
    by (simp add: match_here_def token_text_def t1 d1 t2 d2)
qed

lemma regex_match_iff_token: "regex_match s = Some (d, i) \<longleftrightarrow> is_token s d i"
proof
  assume "regex_match s = Some (d, i)"
  then have "match_here s = Some (d, i, [])"
    by (auto simp: regex_match_def split: option.splits if_splits)
  from match_here_sound[OF this] show "is_token s d i" by (simp add: is_token_def)
next
  assume "is_token s d i"
  then show "regex_match s = Some (d, i)"
    using match_here_complete[of d i "[]"] by (simp add: is_token_def regex_match_def)
qed

section \<open>Properties of the resolver\<close>

text \<open>A match whose data-set name is unknown leaves \<open>result\<close> as it is.\<close>

lemma substitute_loop_unknown:
  "\<forall>(d, i) \<in> set (scanned_tokens temp). dataSetNameMap m d = None \<Longrightarrow>
   substitute_loop m temp result = result"
proof (induction m temp result rule: substitute_loop.induct)
  case (1 m temp result)
  show ?case
  proof (cases "regex_search temp")
    case None
    then show ?thesis by (subst substitute_loop.simps) simp
  next
    case (Some t)
    then obtain pre d i rest where t: "regex_search temp = Some (pre, d, i, rest)"
      by (cases t) auto
    then have toks: "scanned_tokens temp = (d, i) # scanned_tokens rest"
      by (subst scanned_tokens.simps) simp
    with "1.prems" have unk: "dataSetNameMap m d = None"
      and rest: "\<forall>(d, i) \<in> set (scanned_tokens rest). dataSetNameMap m d = None"
      by auto
    from unk have same: "substitute_match m d i result = result"
      by (simp add: substitute_match_def)
    have "substitute_loop m temp result = substitute_loop m rest (substitute_match m d i result)"
      using t by (subst substitute_loop.simps) simp
    also have "\<dots> = substitute_match m d i result"
      using "1.IH"[OF t refl refl refl rest] .
    finally show ?thesis using same by simp
  qed
qed


text \<open>
  A store with two data sets: item \<open>x\<close> of \<open>A\<close> holds the text of a reference to item
  \<open>y\<close> of \<open>B\<close>, whose value is \<open>1\<close>. It is the store that two calls of
  \<^verbatim>\<open>createDataSet\<close> and two of \<^verbatim>\<open>addDataItem\<close> build in a fresh manager.
\<close>

definition example_time :: string where
  "example_time = ''2024-01-01 00:00:00''"

definition example_item :: "int \<Rightarrow> string \<Rightarrow> string \<Rightarrow> TestDataItem" where
  "example_item n itemName v =
     \<lparr>item_id = n, item_name = itemName, item_type = ''string'', item_value = v,
      item_description = [], item_project_id = 1, item_created_at = example_time,
      item_last_modified = example_time\<rparr>"

definition example_dataset :: "int \<Rightarrow> string \<Rightarrow> TestDataItem list \<Rightarrow> TestDataSet" where
  "example_dataset n dataSetName its =
     \<lparr>ds_id = n, ds_name = dataSetName, ds_description = [], ds_project_id = 1, items = its,
      ds_created_at = example_time, ds_last_modified = example_time\<rparr>"

definition nested_store :: TestDataManager where
  "nested_store =
     \<lparr>dataSets = [1 \<mapsto> example_dataset 1 ''A'' [example_item 1 ''x'' ''${B.y}''],
                  2 \<mapsto> example_dataset 2 ''B'' [example_item 2 ''y'' ''1'']],
      dataSetNameMap = [''A'' \<mapsto> 1, ''B'' \<mapsto> 2],
      nextDataSetId = 3, nextDataItemId = 3\<rparr>"

definition new_dataset :: "string \<Rightarrow> TestDataSet" where
  "new_dataset dataSetName =
     \<lparr>ds_id = 0, ds_name = dataSetName, ds_description = [], ds_project_id = 1, items = [],
      ds_created_at = [], ds_last_modified = []\<rparr>"

definition new_item :: "string \<Rightarrow> string \<Rightarrow> TestDataItem" where
  "new_item itemName v =
     \<lparr>item_id = 0, item_name = itemName, item_type = ''string'', item_value = v,
      item_description = [], item_project_id = 0, item_created_at = [],
      item_last_modified = []\<rparr>"

lemma nested_store_built:
  "(case createDataSet example_time empty_manager (new_dataset ''A'') of
      Inl e \<Rightarrow> None
    | Inr (a, m1) \<Rightarrow>
        (case addDataItem example_time m1 a (new_item ''x'' ''${B.y}'') of
           Inl e \<Rightarrow> None
         | Inr (x, m2) \<Rightarrow>
             (case createDataSet example_time m2 (new_dataset ''B'') of
                Inl e \<Rightarrow> None
              | Inr (b, m3) \<Rightarrow>
                  (case addDataItem example_time m3 b (new_item ''y'' ''1'') of
                     Inl e \<Rightarrow> None
                   | Inr (y, m4) \<Rightarrow> Some m4)))) = Some nested_store"
  by (simp add: createDataSet_def addDataItem_def empty_manager_def new_dataset_def
        new_item_def nested_store_def example_dataset_def example_item_def Let_def)

lemmas store_eval =
  nested_store_def example_dataset_def example_item_def substituteDataReferences_def
  substitute_loop.simps replace_loop.simps scanned_tokens.simps
  substitute_match_def getDataItemByName_def checkDataSetExists_def match_here_def
  string_find_def string_replace_def token_text_def regex_match_def resolveDataReference_def

lemma messages_distinct:
  "invalid_format_message r1 \<noteq> dataset_not_found_message d1"
  "invalid_format_message r1 \<noteq> resolve_failed_message r2 w"
  "dataset_not_found_message d1 \<noteq> resolve_failed_message r2 w"
  by (simp_all add: invalid_format_message_def dataset_not_found_message_def
        resolve_failed_message_def)

text \<open>
  C9. \<^verbatim>\<open>resolveDataReference\<close> succeeds only on a string that is, as a whole, one token
  \<^verbatim>\<open>${<dataset>.<item>}\<close> whose data set and item exist, and then returns the stored value
  of the item, unchanged. On every other argument it fails: with the invalid-format message
  when the string is not a token, with the data-set-not-found message when the token names
  an unknown data set, and with the failed-to-resolve message when the data set is known
  and has no item of that name. The three failures are \<^verbatim>\<open>TestDataException\<close>s whose
  messages differ from each other whatever the names are, and every call either succeeds
  or fails with one of the three.
\<close>

theorem resolveDataReference_contract:
  "(resolveDataReference m r = Inr v \<longrightarrow>
      (\<exists>d i n ds item. is_token r d i \<and> dataSetNameMap m d = Some n \<and> dataSets m n = Some ds \<and>
         find (\<lambda>x. item_name x = i) (items ds) = Some item \<and> v = item_value item)) \<and>
   (is_token r1 d1 i1 \<and> dataSetNameMap m d1 = Some n1 \<and> dataSets m n1 = Some ds1 \<and>
      find (\<lambda>x. item_name x = i1) (items ds1) = Some item1 \<longrightarrow>
      resolveDataReference m r1 = Inr (item_value item1)) \<and>
   ((\<forall>d i. \<not> is_token r2 d i) \<longrightarrow>
      resolveDataReference m r2 = Inl (TestDataException (invalid_format_message r2))) \<and>
   (is_token r3 d3 i3 \<and> dataSetNameMap m d3 = None \<longrightarrow>
      resolveDataReference m r3 = Inl (TestDataException (dataset_not_found_message d3))) \<and>
   (is_token r4 d4 i4 \<and> dataSetNameMap m d4 = Some n4 \<and> dataSets m n4 = Some ds4 \<and>
      find (\<lambda>x. item_name x = i4) (items ds4) = None \<longrightarrow>
      resolveDataReference m r4 = Inl (TestDataException (resolve_failed_message r4
        (''DataItem with name '' @ quote i4 @ '' not found in DataSet '' @ to_string n4)))) \<and>
   invalid_format_message a \<noteq> dataset_not_found_message b \<and>
   invalid_format_message a \<noteq> resolve_failed_message c w \<and>
   dataset_not_found_message b \<noteq> resolve_failed_message c w \<and>
   ((\<exists>found. resolveDataReference m r5 = Inr found) \<or>
    resolveDataReference m r5 = Inl (TestDataException (invalid_format_message r5)) \<or>
    (\<exists>d. resolveDataReference m r5 = Inl (TestDataException (dataset_not_found_message d))) \<or>
    (\<exists>what. resolveDataReference m r5 = Inl (TestDataException (resolve_failed_message r5 what))))"
proof (intro conjI impI)
  assume ok: "resolveDataReference m r = Inr v"
  then obtain d i where rm: "regex_match r = Some (d, i)"
    by (auto simp: resolveDataReference_def split: option.splits)
  with ok obtain n where n: "dataSetNameMap m d = Some n"
    by (auto simp: resolveDataReference_def split: option.splits)
  with ok rm obtain item where item: "getDataItemByName m n i = Inr item" "v = item_value item"
    by (auto simp: resolveDataReference_def split: sum.splits error.splits)
  then obtain ds where "dataSets m n = Some ds \<and>
      find (\<lambda>x. item_name x = i) (items ds) = Some item"
    by (auto simp: getDataItemByName_def checkDataSetExists_def split: option.splits)
  with n item(2) have "dataSetNameMap m d = Some n \<and>
      dataSets m n = Some ds \<and> find (\<lambda>x. item_name x = i) (items ds) = Some item \<and>
      v = item_value item"
    by simp
  moreover from rm have "is_token r d i" by (simp add: regex_match_iff_token)
  ultimately show "\<exists>d i n ds item. is_token r d i \<and> dataSetNameMap m d = Some n \<and>
      dataSets m n = Some ds \<and> find (\<lambda>x. item_name x = i) (items ds) = Some item \<and>
      v = item_value item"
    by blast
next
  assume "is_token r1 d1 i1 \<and> dataSetNameMap m d1 = Some n1 \<and> dataSets m n1 = Some ds1 \<and>
      find (\<lambda>x. item_name x = i1) (items ds1) = Some item1"
  then show "resolveDataReference m r1 = Inr (item_value item1)"
    by (simp add: resolveDataReference_def getDataItemByName_def checkDataSetExists_def
          regex_match_iff_token[symmetric])
next
  assume "\<forall>d i. \<not> is_token r2 d i"
  then have "regex_match r2 = None"
    by (cases "regex_match r2") (auto simp: regex_match_iff_token)
  then show "resolveDataReference m r2 = Inl (TestDataException (invalid_format_message r2))"
    by (simp add: resolveDataReference_def)
next
  assume "is_token r3 d3 i3 \<and> dataSetNameMap m d3 = None"
  then show "resolveDataReference m r3 = Inl (TestDataException (dataset_not_found_message d3))"
    by (simp add: resolveDataReference_def regex_match_iff_token[symmetric])
next
  assume "is_token r4 d4 i4 \<and> dataSetNameMap m d4 = Some n4 \<and> dataSets m n4 = Some ds4 \<and>
      find (\<lambda>x. item_name x = i4) (items ds4) = None"
  then show "resolveDataReference m r4 = Inl (TestDataException (resolve_failed_message r4
        (''DataItem with name '' @ quote i4 @ '' not found in DataSet '' @ to_string n4)))"
    by (simp add: resolveDataReference_def getDataItemByName_def checkDataSetExists_def
          regex_match_iff_token[symmetric])
next
  show "(\<exists>found. resolveDataReference m r5 = Inr found) \<or>
    resolveDataReference m r5 = Inl (TestDataException (invalid_format_message r5)) \<or>
    (\<exists>d. resolveDataReference m r5 = Inl (TestDataException (dataset_not_found_message d))) \<or>
    (\<exists>what. resolveDataReference m r5 = Inl (TestDataException (resolve_failed_message r5 what)))"
    by (auto simp: resolveDataReference_def split: option.splits sum.splits error.splits)
qed (rule messages_distinct)+

text \<open>The contract at the example store: one reference of each kind.\<close>

lemma is_token_eval: "is_token ''${B.y}'' ''B'' ''y''" "is_token ''${C.y}'' ''C'' ''y''" "is_token ''${B.z}'' ''B'' ''z''"
  by (simp_all add: is_token_def token_text_def)

lemma not_token: "\<not> is_token ''B.y'' d i"
  by (simp add: is_token_def token_text_def)

theorem resolveDataReference_contract_witness:
  "resolveDataReference nested_store ''${B.y}'' = Inr ''1'' \<and>
   is_token ''${B.y}'' ''B'' ''y'' \<and>
   (\<forall>d i. \<not> is_token ''B.y'' d i) \<and>
   resolveDataReference nested_store ''B.y'' =
     Inl (TestDataException ''Invalid data reference format: B.y. Use ${dataset_name.item_name}'') \<and>
   is_token ''${C.y}'' ''C'' ''y'' \<and> dataSetNameMap nested_store ''C'' = None \<and>
   resolveDataReference nested_store ''${C.y}'' =
     Inl (TestDataException (''DataSet with name '' @ quote ''C'' @ '' not found'')) \<and>
   is_token ''${B.z}'' ''B'' ''z'' \<and> dataSetNameMap nested_store ''B'' = Some 2 \<and>
   resolveDataReference nested_store ''${B.z}'' =
     Inl (TestDataException (''Failed to resolve reference ${B.z}: DataItem with name ''
        @ quote ''z'' @ '' not found in DataSet 2''))"
proof -
  let ?B = "example_dataset 2 ''B'' [example_item 2 ''y'' ''1'']"
  note contract = resolveDataReference_contract[of nested_store "''${B.y}''" "''1''"
      "''${B.y}''" "''B''" "''y''" 2 ?B "example_item 2 ''y'' ''1''"
      "''B.y''" "''${C.y}''" "''C''" "''y''" "''${B.z}''" "''B''" "''z''" 2 ?B]
  have known: "dataSetNameMap nested_store ''B'' = Some 2" "dataSets nested_store 2 = Some ?B"
    and unknown: "dataSetNameMap nested_store ''C'' = None"
    by (simp_all add: nested_store_def)
  have found: "find (\<lambda>x. item_name x = ''y'') (items ?B) = Some (example_item 2 ''y'' ''1'')"
    and missing: "find (\<lambda>x. item_name x = ''z'') (items ?B) = None"
    by (simp_all add: example_dataset_def example_item_def)
  have "resolveDataReference nested_store ''${B.y}'' = Inr (item_value (example_item 2 ''y'' ''1''))"
    using contract is_token_eval(1) known found by blast
  then have ok: "resolveDataReference nested_store ''${B.y}'' = Inr ''1''"
    by (simp add: example_item_def)
  have "resolveDataReference nested_store ''B.y'' =
      Inl (TestDataException (invalid_format_message ''B.y''))"
    using contract not_token by blast
  then have malformed: "resolveDataReference nested_store ''B.y'' =
      Inl (TestDataException ''Invalid data reference format: B.y. Use ${dataset_name.item_name}'')"
    by (simp add: invalid_format_message_def)
  have "resolveDataReference nested_store ''${C.y}'' =
      Inl (TestDataException (dataset_not_found_message ''C''))"
    using contract is_token_eval(2) unknown by blast
  then have dataset: "resolveDataReference nested_store ''${C.y}'' =
      Inl (TestDataException (''DataSet with name '' @ quote ''C'' @ '' not found''))"
    by (simp add: dataset_not_found_message_def)
  have two: "to_string 2 = ''2''"
    by code_simp
  have "resolveDataReference nested_store ''${B.z}'' =
      Inl (TestDataException (resolve_failed_message ''${B.z}''
        (''DataItem with name '' @ quote ''z'' @ '' not found in DataSet '' @ to_string 2)))"
    using contract is_token_eval(3) known missing by blast
  then have item: "resolveDataReference nested_store ''${B.z}'' =
      Inl (TestDataException (''Failed to resolve reference ${B.z}: DataItem with name ''
        @ quote ''z'' @ '' not found in DataSet 2''))"
    by (simp add: resolve_failed_message_def two)
  from ok malformed dataset item is_token_eval not_token known unknown show ?thesis
    by simp
qed

text \<open>
  C4. The claim says that text brought in by a replacement value is never resolved in the
  same call. In the example store the value of \<^verbatim>\<open>${A.x}\<close> is the text \<^verbatim>\<open>${B.y}\<close>;
  the input also holds the token \<^verbatim>\<open>${B.y}\<close> itself. When the outer loop reaches that
  second token it rewrites \<open>result\<close> from position 0, so the inserted text is replaced
  as well: the call returns \<^verbatim>\<open>1 1\<close>, where the claim asks for \<^verbatim>\<open>${B.y} 1\<close>.
  On its own, \<^verbatim>\<open>${A.x}\<close> does become \<^verbatim>\<open>${B.y}\<close> and stays so.
\<close>

theorem substituteDataReferences_resolves_inserted_text:
  "substituteDataReferences nested_store ''${A.x}'' = ''${B.y}'' \<and>
   substituteDataReferences nested_store ''${A.x} ${B.y}'' = ''1 1''"
  by (simp add: store_eval)

text \<open>
  C8, as stated, fails: substituting twice is not the same as substituting once when a
  stored value holds a reference that resolves. The first call turns \<^verbatim>\<open>${A.x}\<close> into
  \<^verbatim>\<open>${B.y}\<close>, the second turns that into \<^verbatim>\<open>1\<close>.
\<close>

theorem substituteDataReferences_not_idempotent:
  "substituteDataReferences nested_store (substituteDataReferences nested_store ''${A.x}'')
     \<noteq> substituteDataReferences nested_store ''${A.x}''"
  by (simp add: store_eval)

text \<open>
  C8, amended. When every token the scan finds in the input names an unknown data set,
  \<^verbatim>\<open>substituteDataReferences\<close> returns the input unchanged, and so applying it to its
  own output yields the same output again.
\<close>

theorem substituteDataReferences_unknown_datasets:
  assumes "\<forall>(d, i) \<in> set (scanned_tokens input). dataSetNameMap m d = None"
  shows "substituteDataReferences m input = input \<and>
         substituteDataReferences m (substituteDataReferences m input) =
           substituteDataReferences m input"
proof -
  have "substituteDataReferences m input = input"
    unfolding substituteDataReferences_def using assms by (rule substitute_loop_unknown)
  then show ?thesis by simp
qed

theorem substituteDataReferences_unknown_datasets_witness:
  "scanned_tokens ''run ${C.y} and ${D.x}'' = [(''C'', ''y''), (''D'', ''x'')] \<and>
   dataSetNameMap nested_store ''C'' = None \<and> dataSetNameMap nested_store ''D'' = None \<and>
   substituteDataReferences nested_store ''run ${C.y} and ${D.x}'' = ''run ${C.y} and ${D.x}''"
proof -
  have toks: "scanned_tokens ''run ${C.y} and ${D.x}'' = [(''C'', ''y''), (''D'', ''x'')]"
    by (simp add: scanned_tokens.simps match_here_def)
  have unk: "dataSetNameMap nested_store ''C'' = None" "dataSetNameMap nested_store ''D'' = None"
    by (simp_all add: nested_store_def)
  have "\<forall>(d, i) \<in> set (scanned_tokens ''run ${C.y} and ${D.x}''). dataSetNameMap nested_store d = None"
    using toks unk by simp
  from substituteDataReferences_unknown_datasets[OF this] toks unk show ?thesis by simp
qed

section \<open>Plugins\<close>

text \<open>
  \<^verbatim>\<open>IAutomationPlugin.h\<close>. The parameters and the result of one step; the result's
  \<^verbatim>\<open>ExecutionTimeMs\<close> and every other clock reading are left out, no property below
  speaks of time.
\<close>

record StepParam =
  action :: string
  target :: string
  val :: string
  params :: "string \<rightharpoonup> string"
  timeout :: int

record StepResult =
  success :: bool
  message :: string
  error_code :: int
  extra_data :: string
  err_info :: string
  result_action :: string

text \<open>A default-constructed \<^verbatim>\<open>StepResult\<close>.\<close>

definition default_StepResult :: StepResult where
  "default_StepResult =
     \<lparr>success = False, message = [], error_code = 0, extra_data = [], err_info = [],
      result_action = []\<rparr>"

text \<open>
  What a call into plugin code may throw, as the handlers of the engine tell it apart: an
  exception derived from \<^verbatim>\<open>std::exception\<close> with its \<^verbatim>\<open>what()\<close>, or anything else.
\<close>

datatype exn = StdException string | OtherException

text \<open>
  The calls that reach a module or a plugin instance are recorded as a trace, the world
  beside the registry. An instance is named by the name it is, or would be, registered
  under; a module by the path it was loaded from. \<open>CreatePlugin\<close> records an instance
  that was constructed.
\<close>

datatype event =
    LoadLibrary string
  | FreeLibrary string
  | CreatePlugin string
  | DestroyPlugin string
  | Initialize string
  | Uninitialize string
  | ExecuteStep string StepParam

text \<open>
  A plugin is code from outside the repository, so it is modelled by what its hooks answer.
  \<^verbatim>\<open>executeStep\<close> may depend on everything that happened before (the trace) and may
  throw; \<^verbatim>\<open>uninitialize\<close> may throw. The hooks \<^verbatim>\<open>name\<close>, \<^verbatim>\<open>version\<close>,
  \<^verbatim>\<open>supportedActions\<close> and \<^verbatim>\<open>initialize\<close> are taken to return.
\<close>

record Plugin =
  name :: string
  version :: string
  supportedActions :: "string list"
  initialize :: bool
  uninitialize :: "exn + unit"
  executeStep :: "event list \<Rightarrow> StepParam \<Rightarrow> exn + StepResult"

section \<open>Plugin registry (PluginManager)\<close>

text \<open>
  \<^verbatim>\<open>PluginHandle\<close>: the module handle and the owning pointer to the instance, which is
  null once released; the handle's two function pointers belong to the module and are not
  kept apart from it. The map \<^verbatim>\<open>plugins_\<close> is an association list with one entry per
  key, in the order the map is iterated. Where a new key lands in that order is not fixed
  by the container; the model puts it last, and nothing below depends on the order.
\<close>

record PluginHandle =
  hModule :: string
  plugin :: "Plugin option"

type_synonym registry = "(string \<times> PluginHandle) list"

definition getPlugin :: "registry \<Rightarrow> string \<Rightarrow> Plugin option" where
  "getPlugin plugins pluginName =
     (case map_of plugins pluginName of None \<Rightarrow> None | Some handle \<Rightarrow> plugin handle)"

definition hasPlugin :: "registry \<Rightarrow> string \<Rightarrow> bool" where
  "hasPlugin plugins pluginName \<longleftrightarrow> map_of plugins pluginName \<noteq> None"

definition getPlugins :: "registry \<Rightarrow> Plugin option list" where
  "getPlugins plugins = map (\<lambda>(pluginName, handle). plugin handle) plugins"

definition validatePlugin :: "Plugin \<Rightarrow> bool" where
  "validatePlugin p \<longleftrightarrow> name p \<noteq> []"

text \<open>
  What \<^verbatim>\<open>loadPlugin\<close> finds at a path: no file, a file that \<^verbatim>\<open>LoadLibraryA\<close>
  refuses, or a module. A module may export \<^verbatim>\<open>createPlugin\<close>, which returns an instance
  or null, and may export \<^verbatim>\<open>destroyPlugin\<close>.
\<close>

record DllModule =
  createPlugin :: "Plugin option option"
  destroyPlugin :: bool

datatype DllFile = NoFile | NotLoadable | Loadable DllModule

definition loadPlugin ::
  "(string \<Rightarrow> DllFile) \<Rightarrow> registry \<times> event list \<Rightarrow> string \<Rightarrow> bool \<times> registry \<times> event list" where
  "loadPlugin files st dllPath =
     (case st of (plugins, tr) \<Rightarrow>
        (case files dllPath of
           NoFile \<Rightarrow> (False, plugins, tr)
         | NotLoadable \<Rightarrow> (False, plugins, tr)
         | Loadable module \<Rightarrow>
             (let tr1 = tr @ [LoadLibrary dllPath] in
              case createPlugin module of
                None \<Rightarrow> (False, plugins, tr1 @ [FreeLibrary dllPath])
              | Some created \<Rightarrow>
                  if \<not> destroyPlugin module then (False, plugins, tr1 @ [FreeLibrary dllPath])
                  else
                    (case created of
                       None \<Rightarrow> (False, plugins, tr1 @ [FreeLibrary dllPath])
                     | Some p \<Rightarrow>
                         (let pluginName = name p;
                              tr2 = tr1 @ [CreatePlugin pluginName] in
                          if \<not> validatePlugin p then
                            (False, plugins, tr2 @ [DestroyPlugin pluginName, FreeLibrary dllPath])
                          else if map_of plugins pluginName \<noteq> None then
                            (False, plugins, tr2 @ [DestroyPlugin pluginName, FreeLibrary dllPath])
                          else if \<not> initialize p then
                            (False, plugins,
                             tr2 @ [Initialize pluginName, DestroyPlugin pluginName,
                                    FreeLibrary dllPath])
                          else
                            (True,
                             plugins @ [(pluginName, \<lparr>hModule = dllPath, plugin = Some p\<rparr>)],
                             tr2 @ [Initialize pluginName]))))))"

text \<open>
  \<^verbatim>\<open>unloadAllPlugins\<close>. The loop has no handler: an exception of an
  \<^verbatim>\<open>uninitialize\<close> hook leaves the function at once, with the handles before it
  released and the map not cleared. A handle whose instance pointer is null cannot be
  uninitialized; the source dereferences it.
\<close>

datatype fault = Thrown exn | NullDereference

fun unload_loop ::
  "registry \<Rightarrow> registry \<Rightarrow> event list \<Rightarrow> fault option \<times> registry \<times> event list" where
  "unload_loop visited [] tr = (None, visited, tr)"
| "unload_loop visited ((pluginName, handle) # rest) tr =
     (case plugin handle of
        None \<Rightarrow> (Some NullDereference, visited @ (pluginName, handle) # rest, tr)
      | Some p \<Rightarrow>
          (case uninitialize p of
             Inl e \<Rightarrow>
               (Some (Thrown e), visited @ (pluginName, handle) # rest,
                tr @ [Uninitialize pluginName])
           | Inr _ \<Rightarrow>
               unload_loop (visited @ [(pluginName, handle\<lparr>plugin := None\<rparr>)]) rest
                 (tr @ [Uninitialize pluginName, DestroyPlugin pluginName,
                        FreeLibrary (hModule handle)])))"

definition unloadAllPlugins ::
  "registry \<times> event list \<Rightarrow> fault option \<times> registry \<times> event list" where
  "unloadAllPlugins st =
     (case st of (plugins, tr) \<Rightarrow>
        (case unload_loop [] plugins tr of
           (None, visited, tr') \<Rightarrow> (None, [], tr')
         | (Some f, plugins', tr') \<Rightarrow> (Some f, plugins', tr')))"

section \<open>Test engine\<close>

text \<open>
  \<^verbatim>\<open>TestEngine.h\<close> and the implementation of \<^verbatim>\<open>TestEngine\<close>. Field names are unique
  across records here, so the \<^verbatim>\<open>id\<close> of a step and of a case are \<open>id_step\<close> and
  \<open>id_case\<close>, the \<^verbatim>\<open>name\<close> of a case is \<open>name_case\<close>, and the \<^verbatim>\<open>value\<close> of a
  \<^verbatim>\<open>StepParam\<close> is \<open>val\<close>.
\<close>

record TestStep =
  id_step :: int
  plugin_name :: string
  param :: StepParam
  is_optional :: bool
  stop_on_failure :: bool

record TestCase =
  id_case :: int
  name_case :: string
  description :: string
  steps :: "TestStep list"
  project_id :: int
  setup_script :: string
  teardown_script :: string
  created_at :: string
  last_modified :: string
  data_set_ids :: "int list"

record StepExecutionResult =
  step_id :: int
  result :: StepResult

record TestExecutionResult =
  case_id :: int
  case_name :: string
  overall_success :: bool
  step_results :: "StepExecutionResult list"
  error_message :: string

text \<open>
  The engine holds its two collaborators. The log (console and \<^verbatim>\<open>execution_log_\<close>) is
  not modelled.
\<close>

record TestEngine =
  plugin_manager :: registry
  testDataManager :: TestDataManager

definition failed_step :: "TestStep \<Rightarrow> int \<Rightarrow> string \<Rightarrow> StepExecutionResult" where
  "failed_step step code msg =
     \<lparr>step_id = id_step step,
      result = default_StepResult\<lparr>success := False, error_code := code, message := msg\<rparr>\<rparr>"

definition executeTestStep ::
  "TestEngine \<Rightarrow> event list \<Rightarrow> TestStep \<Rightarrow> StepExecutionResult \<times> event list" where
  "executeTestStep engine tr step =
     (case getPlugin (plugin_manager engine) (plugin_name step) of
        None \<Rightarrow> (failed_step step (- 1) (''Plugin not found: '' @ plugin_name step), tr)
      | Some p \<Rightarrow>
          if action (param step) \<notin> set (supportedActions p) then
            (failed_step step (- 2)
               (''Plugin '' @ plugin_name step @ '' does not support action: ''
                  @ action (param step)), tr)
          else
            (case executeStep p tr (param step) of
               Inr r \<Rightarrow>
                 (\<lparr>step_id = id_step step, result = r\<rparr>,
                  tr @ [ExecuteStep (plugin_name step) (param step)])
             | Inl (StdException what) \<Rightarrow>
                 (failed_step step (- 3) (''Exception occurred: '' @ what),
                  tr @ [ExecuteStep (plugin_name step) (param step)])
             | Inl OtherException \<Rightarrow>
                 (failed_step step (- 4) ''Unknown exception occurred'',
                  tr @ [ExecuteStep (plugin_name step) (param step)])))"

text \<open>
  The two hooks are stubs in the source: the setup always reports success, and the teardown
  only writes to the log, so it does not appear in \<open>executeTestCase\<close> below.
\<close>

definition executeSetup :: "string \<Rightarrow> bool" where
  "executeSetup script = True"

text \<open>
  The step loop of \<^verbatim>\<open>executeTestCase\<close>: each result is appended, and the loop is left
  after a failed step that has \<^verbatim>\<open>stop_on_failure\<close> set.
\<close>

fun run_steps ::
  "TestEngine \<Rightarrow> TestStep list \<Rightarrow> StepExecutionResult list \<times> event list \<Rightarrow>
   StepExecutionResult list \<times> event list" where
  "run_steps engine [] (rs, tr) = (rs, tr)"
| "run_steps engine (step # rest) (rs, tr) =
     (case executeTestStep engine tr step of
        (stepResult, tr') \<Rightarrow>
          if \<not> success (result stepResult) \<and> stop_on_failure step
          then (rs @ [stepResult], tr')
          else run_steps engine rest (rs @ [stepResult], tr'))"

text \<open>
  The second loop of \<^verbatim>\<open>executeTestCase\<close> walks the results and reads the step at the
  same position of the case. There are never more results than steps, so the last equation
  stands for a read the source cannot make.
\<close>

fun overall_loop :: "StepExecutionResult list \<Rightarrow> TestStep list \<Rightarrow> bool" where
  "overall_loop [] stepList = True"
| "overall_loop (stepResult # rs) (step # rest) =
     (if \<not> success (result stepResult) \<and> \<not> is_optional step then False
      else overall_loop rs rest)"
| "overall_loop (stepResult # rs) [] = (success (result stepResult) \<and> overall_loop rs [])"

definition executeTestCase ::
  "TestEngine \<Rightarrow> event list \<Rightarrow> TestCase \<Rightarrow> TestExecutionResult \<times> event list" where
  "executeTestCase engine tr testCase =
     (let r0 = \<lparr>case_id = id_case testCase, case_name = name_case testCase,
                overall_success = False, step_results = [], error_message = []\<rparr>
      in if setup_script testCase \<noteq> [] \<and> \<not> executeSetup (setup_script testCase)
         then (r0\<lparr>overall_success := False, error_message := ''Setup script failed''\<rparr>, tr)
         else
           (case run_steps engine (steps testCase) ([], tr) of
              (rs, tr') \<Rightarrow>
                (r0\<lparr>step_results := rs,
                    overall_success := overall_loop rs (steps testCase)\<rparr>, tr')))"

section \<open>Properties of the step loop\<close>

text \<open>The condition under which the step loop is left.\<close>

definition stops :: "StepExecutionResult \<Rightarrow> TestStep \<Rightarrow> bool" where
  "stops r s \<longleftrightarrow> \<not> success (result r) \<and> stop_on_failure s"

lemma run_steps_step:
  "executeTestStep e tr s = (r, tr') \<Longrightarrow>
   run_steps e (s # ss) (rs, tr) =
     (if stops r s then (rs @ [r], tr') else run_steps e ss (rs @ [r], tr'))"
  by (simp add: stops_def)

lemma run_steps_acc:
  "run_steps e ss (rs, tr) = (rs @ fst (run_steps e ss ([], tr)), snd (run_steps e ss ([], tr)))"
proof (induction ss arbitrary: rs tr)
  case Nil
  show ?case by simp
next
  case (Cons s ss)
  obtain r tr' where step: "executeTestStep e tr s = (r, tr')"
    by (cases "executeTestStep e tr s")
  show ?case
    using Cons.IH[of "rs @ [r]" tr'] Cons.IH[of "[r]" tr']
    by (simp add: run_steps_step[OF step] del: run_steps.simps)
qed

lemma run_steps_Cons:
  "executeTestStep e tr s = (r, tr') \<Longrightarrow>
   run_steps e (s # ss) ([], tr) =
     (if stops r s then ([r], tr')
      else (r # fst (run_steps e ss ([], tr')), snd (run_steps e ss ([], tr'))))"
  using run_steps_acc[of e ss "[r]" tr'] by (simp add: run_steps_step del: run_steps.simps)

lemma run_steps_length: "length (fst (run_steps e ss ([], tr))) \<le> length ss"
proof (induction ss arbitrary: tr)
  case Nil
  show ?case by simp
next
  case (Cons s ss)
  obtain r tr' where step: "executeTestStep e tr s = (r, tr')"
    by (cases "executeTestStep e tr s")
  show ?case using Cons.IH[of tr'] by (simp add: run_steps_Cons[OF step] del: run_steps.simps)
qed

lemma overall_loop_iff:
  "length rs \<le> length ss \<Longrightarrow>
   overall_loop rs ss \<longleftrightarrow> (\<forall>i<length rs. success (result (rs ! i)) \<or> is_optional (ss ! i))"
proof (induction rs ss rule: overall_loop.induct)
  case (1 stepList)
  show ?case by simp
next
  case (2 stepResult rs step rest)
  show ?case
  proof (cases "\<not> success (result stepResult) \<and> \<not> is_optional step")
    case True
    then show ?thesis by auto
  next
    case False
    with 2 have "overall_loop rs rest \<longleftrightarrow>
        (\<forall>i<length rs. success (result (rs ! i)) \<or> is_optional (rest ! i))"
      by simp
    with False show ?thesis by (auto simp: All_less_Suc2)
  qed
next
  case (3 stepResult rs)
  then show ?case by simp
qed

lemma run_steps_stop:
  assumes "k < length (fst (run_steps e ss ([], tr)))"
    and "\<not> success (result (fst (run_steps e ss ([], tr)) ! k))"
    and "stop_on_failure (ss ! k)"
  shows "length (fst (run_steps e ss ([], tr))) = Suc k \<and>
         run_steps e (take (Suc k) ss) ([], tr) = run_steps e ss ([], tr)"
  using assms
proof (induction ss arbitrary: k tr)
  case Nil
  then show ?case by simp
next
  case (Cons s ss)
  obtain r tr' where step: "executeTestStep e tr s = (r, tr')"
    by (cases "executeTestStep e tr s")
  note unfold = run_steps_Cons[OF step]
  show ?case
  proof (cases "stops r s")
    case True
    with Cons.prems(1) have "k = 0" by (simp add: unfold del: run_steps.simps)
    with True show ?thesis by (simp add: unfold del: run_steps.simps)
  next
    case False
    show ?thesis
    proof (cases k)
      case 0
      with Cons.prems False show ?thesis by (simp add: unfold stops_def del: run_steps.simps)
    next
      case (Suc j)
      with Cons.prems False have
        "j < length (fst (run_steps e ss ([], tr')))"
        "\<not> success (result (fst (run_steps e ss ([], tr')) ! j))"
        "stop_on_failure (ss ! j)"
        by (simp_all add: unfold del: run_steps.simps)
      from Cons.IH[OF this] Suc False show ?thesis
        by (simp add: unfold del: run_steps.simps)
    qed
  qed
qed


section \<open>Properties of the engine\<close>

text \<open>
  An engine for the examples: one registered plugin, \<open>Demo\<close>, that fails on the action
  \<open>fail\<close>, throws on \<open>throw\<close> and \<open>crash\<close>, and otherwise succeeds and hands the
  target it was given back as \<open>extra_data\<close>; the data store is the one above.
\<close>

definition example_plugin :: Plugin where
  "example_plugin =
     \<lparr>name = ''Demo'', version = ''1.0'',
      supportedActions = [''click'', ''fail'', ''throw'', ''crash''],
      initialize = True, uninitialize = Inr (),
      executeStep = (\<lambda>tr p.
        if action p = ''fail'' then Inr (default_StepResult\<lparr>message := ''failed''\<rparr>)
        else if action p = ''throw'' then Inl (StdException ''boom'')
        else if action p = ''crash'' then Inl OtherException
        else Inr (default_StepResult\<lparr>success := True, extra_data := target p\<rparr>))\<rparr>"

definition example_registry :: registry where
  "example_registry = [(''Demo'', \<lparr>hModule = ''plugins/demo.dll'', plugin = Some example_plugin\<rparr>)]"

definition example_engine :: TestEngine where
  "example_engine = \<lparr>plugin_manager = example_registry, testDataManager = nested_store\<rparr>"

definition example_param :: "string \<Rightarrow> string \<Rightarrow> StepParam" where
  "example_param a t = \<lparr>action = a, target = t, val = [], params = Map.empty, timeout = 3000\<rparr>"

definition example_step :: "int \<Rightarrow> string \<Rightarrow> string \<Rightarrow> string \<Rightarrow> bool \<Rightarrow> bool \<Rightarrow> TestStep" where
  "example_step n p a t optional stop =
     \<lparr>id_step = n, plugin_name = p, param = example_param a t,
      is_optional = optional, stop_on_failure = stop\<rparr>"

definition example_case :: "TestStep list \<Rightarrow> TestCase" where
  "example_case ss =
     \<lparr>id_case = 1, name_case = ''Example'', description = [], steps = ss, project_id = 1,
      setup_script = [], teardown_script = [], created_at = [], last_modified = [],
      data_set_ids = [2]\<rparr>"

lemmas engine_eval =
  example_plugin_def example_registry_def example_engine_def example_param_def
  example_step_def example_case_def executeTestCase_def executeTestStep_def getPlugin_def
  failed_step_def default_StepResult_def executeSetup_def

text \<open>The data manager the engine holds has no influence on a step.\<close>

lemma executeTestStep_ignores_data_manager:
  "executeTestStep (engine\<lparr>testDataManager := m\<rparr>) tr step = executeTestStep engine tr step"
  by (simp add: executeTestStep_def)

text \<open>
  C1. The claim says that the references in a step's parameters are resolved before the
  plugin is called. \<^verbatim>\<open>executeTestStep\<close> hands \<^verbatim>\<open>step.param\<close> to the plugin as it is
  and never consults the data manager the engine holds: for a step whose target is
  \<^verbatim>\<open>${B.y}\<close> the plugin receives that text, although the store resolves it to
  \<^verbatim>\<open>1\<close>.
\<close>

theorem executeTestStep_passes_raw_reference:
  "executeTestStep example_engine [] (example_step 1 ''Demo'' ''click'' ''${B.y}'' False True) =
     (\<lparr>step_id = 1, result = default_StepResult\<lparr>success := True, extra_data := ''${B.y}''\<rparr>\<rparr>,
      [ExecuteStep ''Demo'' (example_param ''click'' ''${B.y}'')]) \<and>
   substituteDataReferences (testDataManager example_engine) ''${B.y}'' = ''1''"
  by (simp add: engine_eval store_eval)

text \<open>
  C2. For every run of a case, \<^verbatim>\<open>overall_success\<close> is false exactly when some result in
  the (possibly cut short) result list has \<^verbatim>\<open>success = false\<close> and belongs to a step
  that is not optional. A failed optional step therefore never makes it false.
\<close>

theorem overall_success_iff:
  "overall_success (fst (executeTestCase e tr tc)) = False \<longleftrightarrow>
     (\<exists>i<length (step_results (fst (executeTestCase e tr tc))).
        \<not> is_optional (steps tc ! i) \<and>
        \<not> success (result (step_results (fst (executeTestCase e tr tc)) ! i)))"
proof -
  let ?rs = "fst (run_steps e (steps tc) ([], tr))"
  have res: "step_results (fst (executeTestCase e tr tc)) = ?rs"
    and ov: "overall_success (fst (executeTestCase e tr tc)) = overall_loop ?rs (steps tc)"
    by (simp_all add: executeTestCase_def executeSetup_def split: prod.splits)
  have "length ?rs \<le> length (steps tc)" by (rule run_steps_length)
  from overall_loop_iff[OF this] show ?thesis
    unfolding res ov by auto
qed

text \<open>
  The example of the specification: the second of three steps is optional and fails, the
  other two succeed, and the case succeeds.
\<close>

theorem overall_success_iff_witness:
  "step_results (fst (executeTestCase example_engine []
      (example_case [example_step 1 ''Demo'' ''click'' ''a'' False True,
                     example_step 2 ''Demo'' ''fail'' ''b'' True False,
                     example_step 3 ''Demo'' ''click'' ''c'' False True]))) =
     [\<lparr>step_id = 1, result = default_StepResult\<lparr>success := True, extra_data := ''a''\<rparr>\<rparr>,
      \<lparr>step_id = 2, result = default_StepResult\<lparr>message := ''failed''\<rparr>\<rparr>,
      \<lparr>step_id = 3, result = default_StepResult\<lparr>success := True, extra_data := ''c''\<rparr>\<rparr>] \<and>
   overall_success (fst (executeTestCase example_engine []
      (example_case [example_step 1 ''Demo'' ''click'' ''a'' False True,
                     example_step 2 ''Demo'' ''fail'' ''b'' True False,
                     example_step 3 ''Demo'' ''click'' ''c'' False True]))) = True"
proof -
  let ?tc = "example_case [example_step 1 ''Demo'' ''click'' ''a'' False True,
                     example_step 2 ''Demo'' ''fail'' ''b'' True False,
                     example_step 3 ''Demo'' ''click'' ''c'' False True]"
  let ?rs = "[\<lparr>step_id = 1, result = default_StepResult\<lparr>success := True, extra_data := ''a''\<rparr>\<rparr>,
      \<lparr>step_id = 2, result = default_StepResult\<lparr>message := ''failed''\<rparr>\<rparr>,
      \<lparr>step_id = 3, result = default_StepResult\<lparr>success := True, extra_data := ''c''\<rparr>\<rparr>]"
  have rs: "step_results (fst (executeTestCase example_engine [] ?tc)) = ?rs"
    by (simp add: engine_eval)
  have "\<not> (\<exists>i<length (step_results (fst (executeTestCase example_engine [] ?tc))).
          \<not> is_optional (steps ?tc ! i) \<and>
          \<not> success (result (step_results (fst (executeTestCase example_engine [] ?tc)) ! i)))"
    unfolding rs by (simp add: engine_eval All_less_Suc Ex_less_Suc)
  with overall_success_iff[of example_engine "[]" ?tc]
  have "overall_success (fst (executeTestCase example_engine [] ?tc)) \<noteq> False"
    by blast
  with rs show ?thesis
    by simp
qed


text \<open>The fields of the result of a run, read off the step loop.\<close>

lemma executeTestCase_results:
  "step_results (fst (executeTestCase e tr tc)) = fst (run_steps e (steps tc) ([], tr))"
  "snd (executeTestCase e tr tc) = snd (run_steps e (steps tc) ([], tr))"
  "overall_success (fst (executeTestCase e tr tc)) =
     overall_loop (fst (run_steps e (steps tc) ([], tr))) (steps tc)"
  "case_id (fst (executeTestCase e tr tc)) = id_case tc"
  "case_name (fst (executeTestCase e tr tc)) = name_case tc"
  "error_message (fst (executeTestCase e tr tc)) = []"
  by (simp_all add: executeTestCase_def executeSetup_def split: prod.splits)

lemma run_steps_no_stop:
  "\<forall>s\<in>set ss. \<not> stop_on_failure s \<Longrightarrow> length (fst (run_steps e ss ([], tr))) = length ss"
proof (induction ss arbitrary: tr)
  case Nil
  show ?case by simp
next
  case (Cons s ss)
  obtain r tr' where step: "executeTestStep e tr s = (r, tr')"
    by (cases "executeTestStep e tr s")
  from Cons.prems have "\<not> stops r s" by (simp add: stops_def)
  with Cons show ?case by (simp add: run_steps_Cons[OF step] del: run_steps.simps)
qed

text \<open>
  C3, amended. If the step at position \<open>i\<close> (counted from 0) was executed and failed, and it
  has \<^verbatim>\<open>stop_on_failure\<close> set, then the result list ends with it, so it has \<open>i + 1\<close>
  entries, and the run, results and trace alike, is the run of the case cut after that
  step: no later step is executed. \<^verbatim>\<open>overall_success\<close> is false provided the failed
  step is not optional. For three steps with a failing second step this gives two results.
\<close>

theorem stop_on_failure_truncates:
  assumes "i < length (step_results (fst (executeTestCase e tr tc)))"
    and "\<not> success (result (step_results (fst (executeTestCase e tr tc)) ! i))"
    and "stop_on_failure (steps tc ! i)"
  shows "length (step_results (fst (executeTestCase e tr tc))) = i + 1 \<and>
         executeTestCase e tr (tc\<lparr>steps := take (i + 1) (steps tc)\<rparr>) = executeTestCase e tr tc \<and>
         (\<not> is_optional (steps tc ! i) \<longrightarrow> overall_success (fst (executeTestCase e tr tc)) = False)"
proof -
  obtain rs tr' where run: "run_steps e (steps tc) ([], tr) = (rs, tr')"
    by (cases "run_steps e (steps tc) ([], tr)")
  from assms run have i: "i < length (fst (run_steps e (steps tc) ([], tr)))"
    and failed: "\<not> success (result (fst (run_steps e (steps tc) ([], tr)) ! i))"
    by (simp_all add: executeTestCase_results)
  from run_steps_stop[OF i failed assms(3)] run
  have len: "length rs = Suc i"
    and same: "run_steps e (take (Suc i) (steps tc)) ([], tr) = (rs, tr')"
    by simp_all
  have le: "length rs \<le> length (steps tc)"
    using run_steps_length[of e "steps tc" tr] run by simp
  with len have le': "length rs \<le> length (take (Suc i) (steps tc))" by simp
  have loop: "overall_loop rs (take (Suc i) (steps tc)) = overall_loop rs (steps tc)"
    unfolding overall_loop_iff[OF le] overall_loop_iff[OF le'] using len by simp
  have "executeTestCase e tr (tc\<lparr>steps := take (i + 1) (steps tc)\<rparr>) = executeTestCase e tr tc"
    by (simp add: executeTestCase_def executeSetup_def run same loop)
  moreover have "\<not> is_optional (steps tc ! i) \<longrightarrow> \<not> overall_loop rs (steps tc)"
    unfolding overall_loop_iff[OF le] using i failed run by auto
  ultimately show ?thesis using len run by (simp add: executeTestCase_results)
qed

definition stopping_case :: "bool \<Rightarrow> TestCase" where
  "stopping_case optional =
     example_case [example_step 1 ''Demo'' ''click'' ''a'' False True,
                   example_step 2 ''Demo'' ''fail'' ''b'' optional True,
                   example_step 3 ''Demo'' ''click'' ''c'' False True]"

lemma stopping_case_run:
  "step_results (fst (executeTestCase example_engine [] (stopping_case optional))) =
     [\<lparr>step_id = 1, result = default_StepResult\<lparr>success := True, extra_data := ''a''\<rparr>\<rparr>,
      \<lparr>step_id = 2, result = default_StepResult\<lparr>message := ''failed''\<rparr>\<rparr>]"
  "overall_success (fst (executeTestCase example_engine [] (stopping_case optional))) = optional"
  "steps (stopping_case optional) ! Suc 0 = example_step 2 ''Demo'' ''fail'' ''b'' optional True"
  "length (steps (stopping_case optional)) = 3"
  by (simp_all add: stopping_case_def engine_eval)

theorem stop_on_failure_truncates_witness:
  "length (steps (stopping_case False)) = 3 \<and>
   \<not> success (result (step_results (fst (executeTestCase example_engine [] (stopping_case False))) ! 1)) \<and>
   stop_on_failure (steps (stopping_case False) ! 1) \<and>
   \<not> is_optional (steps (stopping_case False) ! 1) \<and>
   length (step_results (fst (executeTestCase example_engine [] (stopping_case False)))) = 2 \<and>
   overall_success (fst (executeTestCase example_engine [] (stopping_case False))) = False \<and>
   snd (executeTestCase example_engine [] (stopping_case False)) =
     [ExecuteStep ''Demo'' (example_param ''click'' ''a''),
      ExecuteStep ''Demo'' (example_param ''fail'' ''b'')]"
proof -
  let ?run = "executeTestCase example_engine [] (stopping_case False)"
  have h1: "1 < length (step_results (fst ?run))"
    and h2: "\<not> success (result (step_results (fst ?run) ! 1))"
    and h3: "stop_on_failure (steps (stopping_case False) ! 1)"
    and h4: "\<not> is_optional (steps (stopping_case False) ! 1)"
    by (simp_all add: stopping_case_run example_step_def default_StepResult_def)
  from stop_on_failure_truncates[OF h1 h2 h3] h4
  have "length (step_results (fst ?run)) = 2" "overall_success (fst ?run) = False"
    by simp_all
  moreover have "snd ?run = [ExecuteStep ''Demo'' (example_param ''click'' ''a''),
      ExecuteStep ''Demo'' (example_param ''fail'' ''b'')]"
    by (simp add: stopping_case_def engine_eval)
  ultimately show ?thesis using h2 h3 h4 by (simp add: stopping_case_run)
qed

text \<open>
  C3, as stated, fails where it promises \<^verbatim>\<open>overall_success = false\<close>: when the failing
  second step with \<^verbatim>\<open>stop_on_failure\<close> is optional, the run still stops after two
  results, but the case succeeds.
\<close>

theorem stop_on_failure_optional_counterexample:
  "length (steps (stopping_case True)) = 3 \<and>
   \<not> success (result (step_results (fst (executeTestCase example_engine [] (stopping_case True))) ! 1)) \<and>
   stop_on_failure (steps (stopping_case True) ! 1) \<and>
   length (step_results (fst (executeTestCase example_engine [] (stopping_case True)))) = 2 \<and>
   overall_success (fst (executeTestCase example_engine [] (stopping_case True))) = True"
  by (simp add: stopping_case_run example_step_def default_StepResult_def)

text \<open>
  C6. A step whose plugin is not registered yields a failed result with code \<open>-1\<close> and the
  message \<^verbatim>\<open>Plugin not found: <name>\<close>. A step whose action the plugin does not list
  yields a failed result with code \<open>-2\<close>, and the trace is unchanged: the plugin is not
  called. An exception of \<^verbatim>\<open>executeStep\<close> is turned into a failed result, with code
  \<open>-3\<close> and its \<^verbatim>\<open>what()\<close> when it is a \<^verbatim>\<open>std::exception\<close>, with code \<open>-4\<close>
  otherwise. None of them ends the run: a case none of whose steps stops on failure has a
  result for every step, and the error message of the case stays empty.
\<close>

theorem executeTestStep_dispatch_errors:
  "(getPlugin (plugin_manager e) (plugin_name s1) = None \<longrightarrow>
      executeTestStep e tr s1 =
        (\<lparr>step_id = id_step s1,
          result = default_StepResult\<lparr>success := False, error_code := - 1,
                     message := ''Plugin not found: '' @ plugin_name s1\<rparr>\<rparr>, tr)) \<and>
   (getPlugin (plugin_manager e) (plugin_name s2) = Some p2 \<and>
    action (param s2) \<notin> set (supportedActions p2) \<longrightarrow>
      executeTestStep e tr s2 =
        (\<lparr>step_id = id_step s2,
          result = default_StepResult\<lparr>success := False, error_code := - 2,
                     message := ''Plugin '' @ plugin_name s2 @ '' does not support action: ''
                                  @ action (param s2)\<rparr>\<rparr>, tr)) \<and>
   (getPlugin (plugin_manager e) (plugin_name s3) = Some p3 \<and>
    action (param s3) \<in> set (supportedActions p3) \<and>
    executeStep p3 tr (param s3) = Inl (StdException what) \<longrightarrow>
      executeTestStep e tr s3 =
        (\<lparr>step_id = id_step s3,
          result = default_StepResult\<lparr>success := False, error_code := - 3,
                     message := ''Exception occurred: '' @ what\<rparr>\<rparr>,
         tr @ [ExecuteStep (plugin_name s3) (param s3)])) \<and>
   (getPlugin (plugin_manager e) (plugin_name s4) = Some p4 \<and>
    action (param s4) \<in> set (supportedActions p4) \<and>
    executeStep p4 tr (param s4) = Inl OtherException \<longrightarrow>
      executeTestStep e tr s4 =
        (\<lparr>step_id = id_step s4,
          result = default_StepResult\<lparr>success := False, error_code := - 4,
                     message := ''Unknown exception occurred''\<rparr>\<rparr>,
         tr @ [ExecuteStep (plugin_name s4) (param s4)])) \<and>
   ((\<forall>s\<in>set (steps tc). \<not> stop_on_failure s) \<longrightarrow>
      length (step_results (fst (executeTestCase e tr tc))) = length (steps tc)) \<and>
   error_message (fst (executeTestCase e tr tc)) = []"
  by (auto simp: executeTestStep_def failed_step_def executeTestCase_results run_steps_no_stop)

text \<open>One step for each of the dispatch errors, followed by a step that succeeds.\<close>

definition dispatch_error_case :: TestCase where
  "dispatch_error_case =
     example_case [example_step 1 ''Missing'' ''click'' ''a'' False False,
                   example_step 2 ''Demo'' ''hover'' ''b'' False False,
                   example_step 3 ''Demo'' ''throw'' ''c'' False False,
                   example_step 4 ''Demo'' ''crash'' ''d'' False False,
                   example_step 5 ''Demo'' ''click'' ''e'' False False]"

theorem executeTestStep_dispatch_errors_witness:
  "map (\<lambda>r. (success (result r), error_code (result r), message (result r)))
     (step_results (fst (executeTestCase example_engine [] dispatch_error_case))) =
     [(False, - 1, ''Plugin not found: Missing''),
      (False, - 2, ''Plugin Demo does not support action: hover''),
      (False, - 3, ''Exception occurred: boom''),
      (False, - 4, ''Unknown exception occurred''),
      (True, 0, [])] \<and>
   snd (executeTestCase example_engine [] dispatch_error_case) =
     [ExecuteStep ''Demo'' (example_param ''throw'' ''c''),
      ExecuteStep ''Demo'' (example_param ''crash'' ''d''),
      ExecuteStep ''Demo'' (example_param ''click'' ''e'')] \<and>
   length (step_results (fst (executeTestCase example_engine [] dispatch_error_case))) = 5"
proof -
  let ?s1 = "example_step 1 ''Missing'' ''click'' ''a'' False False"
  let ?s2 = "example_step 2 ''Demo'' ''hover'' ''b'' False False"
  let ?s3 = "example_step 3 ''Demo'' ''throw'' ''c'' False False"
  let ?s4 = "example_step 4 ''Demo'' ''crash'' ''d'' False False"
  let ?s5 = "example_step 5 ''Demo'' ''click'' ''e'' False False"
  let ?t3 = "[ExecuteStep ''Demo'' (example_param ''throw'' ''c'')]"
  let ?t4 = "[ExecuteStep ''Demo'' (example_param ''throw'' ''c''),
              ExecuteStep ''Demo'' (example_param ''crash'' ''d'')]"
  note rules = executeTestStep_dispatch_errors[where e = example_engine and ?s1.0 = ?s1
      and ?s2.0 = ?s2 and ?p2.0 = example_plugin and ?s3.0 = ?s3 and ?p3.0 = example_plugin
      and what = "''boom''" and ?s4.0 = ?s4 and ?p4.0 = example_plugin
      and tc = dispatch_error_case]
  have missing: "getPlugin (plugin_manager example_engine) (plugin_name ?s1) = None"
    and present: "getPlugin (plugin_manager example_engine) (plugin_name ?s2) = Some example_plugin"
      "getPlugin (plugin_manager example_engine) (plugin_name ?s3) = Some example_plugin"
      "getPlugin (plugin_manager example_engine) (plugin_name ?s4) = Some example_plugin"
    and unsupported: "action (param ?s2) \<notin> set (supportedActions example_plugin)"
    and supported: "action (param ?s3) \<in> set (supportedActions example_plugin)"
      "action (param ?s4) \<in> set (supportedActions example_plugin)"
    and throws: "executeStep example_plugin [] (param ?s3) = Inl (StdException ''boom'')"
      "executeStep example_plugin ?t3 (param ?s4) = Inl OtherException"
    and no_stop: "\<forall>s\<in>set (steps dispatch_error_case). \<not> stop_on_failure s"
    by (simp_all add: engine_eval dispatch_error_case_def)
  have e1: "executeTestStep example_engine [] ?s1 =
      (\<lparr>step_id = 1, result = default_StepResult\<lparr>success := False, error_code := - 1,
          message := ''Plugin not found: Missing''\<rparr>\<rparr>, [])"
    using rules[where tr = "[]"] missing by (simp add: example_step_def)
  have e2: "executeTestStep example_engine [] ?s2 =
      (\<lparr>step_id = 2, result = default_StepResult\<lparr>success := False, error_code := - 2,
          message := ''Plugin Demo does not support action: hover''\<rparr>\<rparr>, [])"
    using rules[where tr = "[]"] present(1) unsupported by (simp add: example_step_def example_param_def)
  have e3: "executeTestStep example_engine [] ?s3 =
      (\<lparr>step_id = 3, result = default_StepResult\<lparr>success := False, error_code := - 3,
          message := ''Exception occurred: boom''\<rparr>\<rparr>, ?t3)"
    using rules[where tr = "[]"] present(2) supported(1) throws(1)
    by (simp add: example_step_def example_param_def)
  have e4: "executeTestStep example_engine ?t3 ?s4 =
      (\<lparr>step_id = 4, result = default_StepResult\<lparr>success := False, error_code := - 4,
          message := ''Unknown exception occurred''\<rparr>\<rparr>,
       ?t4)"
    using rules[where tr = ?t3] present(3) supported(2) throws(2)
    by (simp add: example_step_def example_param_def)
  have e5: "executeTestStep example_engine ?t4 ?s5 =
      (\<lparr>step_id = 5, result = default_StepResult\<lparr>success := True, extra_data := ''e''\<rparr>\<rparr>,
       ?t4 @ [ExecuteStep ''Demo'' (example_param ''click'' ''e'')])"
    by (simp add: engine_eval)
  have len: "length (step_results (fst (executeTestCase example_engine [] dispatch_error_case))) = 5"
    using rules[where tr = "[]"] no_stop by (simp add: dispatch_error_case_def example_case_def)
  have stop: "\<not> stop_on_failure ?s1" "\<not> stop_on_failure ?s2" "\<not> stop_on_failure ?s3"
      "\<not> stop_on_failure ?s4" "\<not> stop_on_failure ?s5"
    by (simp_all add: example_step_def)
  have run: "run_steps example_engine (steps dispatch_error_case) ([], []) =
      ([fst (executeTestStep example_engine [] ?s1), fst (executeTestStep example_engine [] ?s2),
        fst (executeTestStep example_engine [] ?s3), fst (executeTestStep example_engine ?t3 ?s4),
        fst (executeTestStep example_engine ?t4 ?s5)],
       ?t4 @ [ExecuteStep ''Demo'' (example_param ''click'' ''e'')])"
    by (simp add: dispatch_error_case_def example_case_def e1 e2 e3 e4 e5 stop)
  show ?thesis
    using len by (simp add: executeTestCase_results run e1 e2 e3 e4 e5 default_StepResult_def)
qed

section \<open>Properties of the registry\<close>

text \<open>
  What releasing a whole registry adds to the trace and leaves in the handles, and the
  registries whose every handle holds an instance with an \<^verbatim>\<open>uninitialize\<close> that returns.
\<close>

definition release_events :: "registry \<Rightarrow> event list" where
  "release_events plugins =
     concat (map (\<lambda>(pluginName, handle).
       [Uninitialize pluginName, DestroyPlugin pluginName, FreeLibrary (hModule handle)]) plugins)"

definition released :: "registry \<Rightarrow> registry" where
  "released plugins = map (\<lambda>(pluginName, handle). (pluginName, handle\<lparr>plugin := None\<rparr>)) plugins"

definition releasable :: "registry \<Rightarrow> bool" where
  "releasable plugins \<longleftrightarrow>
     (\<forall>(pluginName, handle) \<in> set plugins. \<exists>p. plugin handle = Some p \<and> uninitialize p = Inr ())"

lemma unload_loop_prefix:
  "releasable pre \<Longrightarrow>
   unload_loop visited (pre @ rest) tr =
     unload_loop (visited @ released pre) rest (tr @ release_events pre)"
proof (induction pre arbitrary: visited tr)
  case Nil
  show ?case by (simp add: released_def release_events_def)
next
  case (Cons entry pre)
  obtain n h where entry: "entry = (n, h)" by (cases entry)
  from Cons.prems entry obtain p where p: "plugin h = Some p" "uninitialize p = Inr ()"
    and pre: "releasable pre"
    by (auto simp: releasable_def)
  have "unload_loop visited ((entry # pre) @ rest) tr =
      unload_loop (visited @ [(n, h\<lparr>plugin := None\<rparr>)]) (pre @ rest)
        (tr @ [Uninitialize n, DestroyPlugin n, FreeLibrary (hModule h)])"
    by (simp add: entry p)
  also have "\<dots> = unload_loop ((visited @ [(n, h\<lparr>plugin := None\<rparr>)]) @ released pre) rest
        ((tr @ [Uninitialize n, DestroyPlugin n, FreeLibrary (hModule h)]) @ release_events pre)"
    by (rule Cons.IH[OF pre])
  finally show ?case by (simp add: entry released_def release_events_def)
qed

lemma count_release_events:
  "count_list (release_events plugins) (Uninitialize n) = count_list (map fst plugins) n"
  "count_list (release_events plugins) (DestroyPlugin n) = count_list (map fst plugins) n"
  by (induction plugins) (auto simp: release_events_def)

lemma count_list_distinct: "distinct xs \<Longrightarrow> x \<in> set xs \<Longrightarrow> count_list xs x = 1"
  by (induction xs) auto

text \<open>
  C5, amended. When no \<^verbatim>\<open>uninitialize\<close> hook throws, \<^verbatim>\<open>unloadAllPlugins\<close>
  uninitializes and destroys every registered plugin exactly once, frees its module and
  empties the registry. An exception of a hook is not caught: it leaves
  \<^verbatim>\<open>unloadAllPlugins\<close> at once, after the plugins before the throwing one were released;
  the throwing plugin and those after it are not released, and the registry is not cleared.
\<close>

theorem unloadAllPlugins_without_handler:
  "(releasable plugins \<longrightarrow>
      unloadAllPlugins (plugins, tr) = (None, [], tr @ release_events plugins)) \<and>
   (releasable plugins \<and> distinct (map fst plugins) \<and> (n, h) \<in> set plugins \<longrightarrow>
      count_list (release_events plugins) (Uninitialize n) = 1 \<and>
      count_list (release_events plugins) (DestroyPlugin n) = 1 \<and>
      FreeLibrary (hModule h) \<in> set (release_events plugins)) \<and>
   (releasable pre \<and> plugin h' = Some p \<and> uninitialize p = Inl x \<longrightarrow>
      unloadAllPlugins (pre @ (n', h') # post, tr) =
        (Some (Thrown x), released pre @ (n', h') # post,
         tr @ release_events pre @ [Uninitialize n']))"
proof -
  have all: "unloadAllPlugins (plugins, tr) = (None, [], tr @ release_events plugins)"
    if "releasable plugins"
    using unload_loop_prefix[OF that, of "[]" "[]" tr] by (simp add: unloadAllPlugins_def)
  have once: "count_list (release_events plugins) (Uninitialize n) = 1 \<and>
      count_list (release_events plugins) (DestroyPlugin n) = 1 \<and>
      FreeLibrary (hModule h) \<in> set (release_events plugins)"
    if a: "releasable plugins \<and> distinct (map fst plugins) \<and> (n, h) \<in> set plugins"
  proof -
    from a have "n \<in> set (map fst plugins)" by force
    with a have "count_list (map fst plugins) n = 1" by (simp add: count_list_distinct)
    moreover from a have "FreeLibrary (hModule h) \<in> set (release_events plugins)"
      by (force simp: release_events_def)
    ultimately show ?thesis by (simp add: count_release_events)
  qed
  have raised: "unloadAllPlugins (pre @ (n', h') # post, tr) =
        (Some (Thrown x), released pre @ (n', h') # post,
         tr @ release_events pre @ [Uninitialize n'])"
    if a: "releasable pre \<and> plugin h' = Some p \<and> uninitialize p = Inl x"
  proof -
    from a have "unload_loop [] (pre @ (n', h') # post) tr =
        (Some (Thrown x), released pre @ (n', h') # post,
         (tr @ release_events pre) @ [Uninitialize n'])"
      by (simp add: unload_loop_prefix)
    then show ?thesis by (simp add: unloadAllPlugins_def)
  qed
  from all once raised show ?thesis by blast
qed

text \<open>
  Registry entries for the examples: \<open>Demo\<close> and \<open>Other\<close> uninitialize without
  complaint, \<open>Bad\<close> throws from its \<^verbatim>\<open>uninitialize\<close> hook.
\<close>

definition failing_plugin :: Plugin where
  "failing_plugin =
     example_plugin\<lparr>name := ''Bad'', uninitialize := Inl (StdException ''cannot stop'')\<rparr>"

definition demo_entry :: "string \<times> PluginHandle" where
  "demo_entry = (''Demo'', \<lparr>hModule = ''plugins/demo.dll'', plugin = Some example_plugin\<rparr>)"

definition bad_entry :: "string \<times> PluginHandle" where
  "bad_entry = (''Bad'', \<lparr>hModule = ''plugins/bad.dll'', plugin = Some failing_plugin\<rparr>)"

definition other_entry :: "string \<times> PluginHandle" where
  "other_entry =
     (''Other'', \<lparr>hModule = ''plugins/other.dll'', plugin = Some (example_plugin\<lparr>name := ''Other''\<rparr>)\<rparr>)"

lemmas registry_eval =
  demo_entry_def bad_entry_def other_entry_def failing_plugin_def example_plugin_def
  unloadAllPlugins_def release_events_def released_def releasable_def

text \<open>
  C5, as stated, fails: with \<open>Bad\<close> iterated first, its exception ends
  \<^verbatim>\<open>unloadAllPlugins\<close>. \<open>Demo\<close> is never uninitialized, no module is freed, and both
  entries stay in the registry.
\<close>

theorem unloadAllPlugins_exception_counterexample:
  "unloadAllPlugins ([bad_entry, demo_entry], []) =
     (Some (Thrown (StdException ''cannot stop'')), [bad_entry, demo_entry],
      [Uninitialize ''Bad''])"
  by (simp add: registry_eval)

text \<open>
  Two plugins that uninitialize are both released, each once; with \<open>Bad\<close> between them
  only \<open>Demo\<close> is released before the exception leaves the function.
\<close>

theorem unloadAllPlugins_without_handler_witness:
  "unloadAllPlugins ([demo_entry, other_entry], []) =
     (None, [],
      [Uninitialize ''Demo'', DestroyPlugin ''Demo'', FreeLibrary ''plugins/demo.dll'',
       Uninitialize ''Other'', DestroyPlugin ''Other'', FreeLibrary ''plugins/other.dll'']) \<and>
   count_list (release_events [demo_entry, other_entry]) (Uninitialize ''Other'') = 1 \<and>
   unloadAllPlugins ([demo_entry, bad_entry, other_entry], []) =
     (Some (Thrown (StdException ''cannot stop'')),
      [(''Demo'', \<lparr>hModule = ''plugins/demo.dll'', plugin = None\<rparr>), bad_entry, other_entry],
      [Uninitialize ''Demo'', DestroyPlugin ''Demo'', FreeLibrary ''plugins/demo.dll'',
       Uninitialize ''Bad''])"
proof -
  have good: "releasable [demo_entry, other_entry]" "releasable [demo_entry]"
    by (simp_all add: registry_eval)
  have keys: "distinct (map fst [demo_entry, other_entry])"
    and entry: "(''Other'', snd other_entry) \<in> set [demo_entry, other_entry]"
    by (simp_all add: registry_eval)
  have bad: "plugin (snd bad_entry) = Some failing_plugin"
    "uninitialize failing_plugin = Inl (StdException ''cannot stop'')"
    and entries: "bad_entry = (''Bad'', snd bad_entry)"
    by (simp_all add: registry_eval)
  note facts = unloadAllPlugins_without_handler[where plugins = "[demo_entry, other_entry]"
      and tr = "[]" and n = "''Other''" and h = "snd other_entry" and pre = "[demo_entry]"
      and n' = "''Bad''" and h' = "snd bad_entry" and p = failing_plugin
      and x = "StdException ''cannot stop''" and post = "[other_entry]"]
  from facts good(1) have
    "unloadAllPlugins ([demo_entry, other_entry], []) =
       (None, [], [] @ release_events [demo_entry, other_entry])"
    by blast
  moreover from facts good(1) keys entry have
    "count_list (release_events [demo_entry, other_entry]) (Uninitialize ''Other'') = 1"
    by blast
  moreover from facts good(2) bad have
    "unloadAllPlugins ([demo_entry] @ (''Bad'', snd bad_entry) # [other_entry], []) =
       (Some (Thrown (StdException ''cannot stop'')),
        released [demo_entry] @ (''Bad'', snd bad_entry) # [other_entry],
        [] @ release_events [demo_entry] @ [Uninitialize ''Bad''])"
    by blast
  ultimately show ?thesis
    using entries by (simp add: release_events_def released_def demo_entry_def other_entry_def)
qed

text \<open>
  C7. Loading a module whose plugin has a name that is already a key of the registry
  returns false and leaves the registry as it was: the same number of entries, the same
  plugin under that name. The instance just constructed is destroyed and the module is
  freed, and the instance is never initialized.
\<close>

theorem loadPlugin_duplicate_rejected:
  assumes "files dllPath = Loadable module"
    and "createPlugin module = Some (Some p)"
    and "destroyPlugin module"
    and "name p \<noteq> []"
    and "map_of plugins (name p) = Some h"
  shows "loadPlugin files (plugins, tr) dllPath =
           (False, plugins,
            tr @ [LoadLibrary dllPath, CreatePlugin (name p), DestroyPlugin (name p),
                  FreeLibrary dllPath]) \<and>
         length (fst (snd (loadPlugin files (plugins, tr) dllPath))) = length plugins \<and>
         getPlugin (fst (snd (loadPlugin files (plugins, tr) dllPath))) (name p) = plugin h"
  using assms by (simp add: loadPlugin_def validatePlugin_def getPlugin_def Let_def)

text \<open>
  Two modules on disk whose plugins both call themselves \<open>Demo\<close>. Loading the first into
  an empty registry gives the example registry; loading the second is then rejected.
\<close>

definition example_files :: "string \<Rightarrow> DllFile" where
  "example_files path =
     (if path = ''plugins/demo.dll'' then
        Loadable \<lparr>createPlugin = Some (Some example_plugin), destroyPlugin = True\<rparr>
      else if path = ''plugins/demo2.dll'' then
        Loadable \<lparr>createPlugin = Some (Some (example_plugin\<lparr>version := ''2.0''\<rparr>)),
                  destroyPlugin = True\<rparr>
      else NoFile)"

theorem loadPlugin_duplicate_rejected_witness:
  "loadPlugin example_files ([], []) ''plugins/demo.dll'' =
     (True, example_registry,
      [LoadLibrary ''plugins/demo.dll'', CreatePlugin ''Demo'', Initialize ''Demo'']) \<and>
   loadPlugin example_files (example_registry, []) ''plugins/demo2.dll'' =
     (False, example_registry,
      [LoadLibrary ''plugins/demo2.dll'', CreatePlugin ''Demo'', DestroyPlugin ''Demo'',
       FreeLibrary ''plugins/demo2.dll'']) \<and>
   getPlugin (fst (snd (loadPlugin example_files (example_registry, []) ''plugins/demo2.dll'')))
     ''Demo'' = Some example_plugin"
proof -
  let ?module = "\<lparr>createPlugin = Some (Some (example_plugin\<lparr>version := ''2.0''\<rparr>)),
                  destroyPlugin = True\<rparr>"
  let ?h = "\<lparr>hModule = ''plugins/demo.dll'', plugin = Some example_plugin\<rparr>"
  have found: "example_files ''plugins/demo2.dll'' = Loadable ?module"
    by (simp add: example_files_def)
  have created: "createPlugin ?module = Some (Some (example_plugin\<lparr>version := ''2.0''\<rparr>))"
    and destroy: "destroyPlugin ?module"
    and named: "name (example_plugin\<lparr>version := ''2.0''\<rparr>) \<noteq> []"
    and present: "map_of example_registry (name (example_plugin\<lparr>version := ''2.0''\<rparr>)) = Some ?h"
    and nm: "name (example_plugin\<lparr>version := ''2.0''\<rparr>) = ''Demo''"
    by (simp_all add: example_plugin_def example_registry_def)
  have first: "loadPlugin example_files ([], []) ''plugins/demo.dll'' =
     (True, example_registry,
      [LoadLibrary ''plugins/demo.dll'', CreatePlugin ''Demo'', Initialize ''Demo''])"
    by (simp add: loadPlugin_def example_files_def validatePlugin_def example_registry_def
          example_plugin_def Let_def)
  note rejected = loadPlugin_duplicate_rejected[where files = example_files
      and dllPath = "''plugins/demo2.dll''" and module = ?module
      and p = "example_plugin\<lparr>version := ''2.0''\<rparr>" and plugins = example_registry
      and h = ?h and tr = "[]", OF found created destroy named present]
  from rejected[THEN conjunct1]
  have second: "loadPlugin example_files (example_registry, []) ''plugins/demo2.dll'' =
     (False, example_registry,
      [LoadLibrary ''plugins/demo2.dll'', CreatePlugin ''Demo'', DestroyPlugin ''Demo'',
       FreeLibrary ''plugins/demo2.dll''])"
    unfolding nm by simp
  from rejected[THEN conjunct2, THEN conjunct2]
  have lookup: "getPlugin (fst (snd (loadPlugin example_files (example_registry, [])
      ''plugins/demo2.dll''))) ''Demo'' = Some example_plugin"
    unfolding nm by simp
  from first second lookup show ?thesis by blast
qed

section \<open>Test case serialization (TestCaseSerializer)\<close>

text \<open>
  The values of the JSON library the serializer builds and reads: null, booleans, integers,
  strings, arrays, and objects as lists of key and value with one entry per key. The
  serializer stores every \<^verbatim>\<open>int\<close> as an integer number; unsigned and floating-point
  numbers, which it never produces, are left out.
\<close>

datatype json =
    JNull
  | JBool bool
  | JInt int
  | JString string
  | JArray "json list"
  | JObject "(string \<times> json) list"

text \<open>The library's \<^verbatim>\<open>type_error\<close>, thrown when a value is read as a type it does not have.\<close>

datatype json_error = TypeError string

definition type_name :: "json \<Rightarrow> string" where
  "type_name j =
     (case j of
        JNull \<Rightarrow> ''null'' | JBool _ \<Rightarrow> ''boolean'' | JInt _ \<Rightarrow> ''number''
      | JString _ \<Rightarrow> ''string'' | JArray _ \<Rightarrow> ''array'' | JObject _ \<Rightarrow> ''object'')"

text \<open>
  \<^verbatim>\<open>j.contains(key)\<close> followed by \<^verbatim>\<open>j[key]\<close>: the value under the key when \<open>j\<close> is
  an object that has it.
\<close>

definition find_key :: "json \<Rightarrow> string \<Rightarrow> json option" where
  "find_key j key = (case j of JObject members \<Rightarrow> map_of members key | _ \<Rightarrow> None)"

text \<open>The implicit conversions of a JSON value to \<^verbatim>\<open>int\<close>, \<^verbatim>\<open>std::string\<close> and \<^verbatim>\<open>bool\<close>.\<close>

definition get_int :: "json \<Rightarrow> json_error + int" where
  "get_int j =
     (case j of
        JInt n \<Rightarrow> Inr n
      | JBool b \<Rightarrow> Inr (if b then 1 else 0)
      | _ \<Rightarrow> Inl (TypeError (''type must be number, but is '' @ type_name j)))"

definition get_string :: "json \<Rightarrow> json_error + string" where
  "get_string j =
     (case j of
        JString s \<Rightarrow> Inr s
      | _ \<Rightarrow> Inl (TypeError (''type must be string, but is '' @ type_name j)))"

definition get_bool :: "json \<Rightarrow> json_error + bool" where
  "get_bool j =
     (case j of
        JBool b \<Rightarrow> Inr b
      | _ \<Rightarrow> Inl (TypeError (''type must be boolean, but is '' @ type_name j)))"

text \<open>
  One guarded assignment, \<^verbatim>\<open>if (j.contains(key)) field = j[key];\<close>: the field keeps its
  current value when the key is missing, and a value of the wrong type throws.
\<close>

definition read_field :: "json \<Rightarrow> string \<Rightarrow> (json \<Rightarrow> json_error + 'a) \<Rightarrow> 'a \<Rightarrow> json_error + 'a" where
  "read_field j key convert current =
     (case find_key j key of None \<Rightarrow> Inr current | Some v \<Rightarrow> convert v)"

text \<open>Statements in sequence: an exception of the first ends the function.\<close>

definition and_then :: "'e + 'a \<Rightarrow> ('a \<Rightarrow> 'e + 'b) \<Rightarrow> 'e + 'b" where
  "and_then m f = (case m of Inl e \<Rightarrow> Inl e | Inr a \<Rightarrow> f a)"

text \<open>
  \<^verbatim>\<open>serializeTestCase\<close> writes four fields of the case and six of every step; the
  other fields are not written.
\<close>

definition serializeStep :: "TestStep \<Rightarrow> json" where
  "serializeStep step =
     JObject [(''id'', JInt (id_step step)),
              (''plugin_name'', JString (plugin_name step)),
              (''action'', JString (action (param step))),
              (''target'', JString (target (param step))),
              (''value'', JString (val (param step))),
              (''stop_on_failure'', JBool (stop_on_failure step))]"

definition serializeTestCase :: "TestCase \<Rightarrow> json" where
  "serializeTestCase testCase =
     JObject [(''id'', JInt (id_case testCase)),
              (''name'', JString (name_case testCase)),
              (''description'', JString (description testCase)),
              (''project_id'', JInt (project_id testCase)),
              (''steps'', JArray (map serializeStep (steps testCase)))]"

text \<open>A default-constructed \<^verbatim>\<open>StepParam\<close> has the timeout 3000 and a default step stops on failure.\<close>

definition deserializeStep :: "json \<Rightarrow> json_error + TestStep" where
  "deserializeStep stepJson =
     and_then (read_field stepJson ''id'' get_int 0) (\<lambda>i.
     and_then (read_field stepJson ''plugin_name'' get_string []) (\<lambda>pluginName.
     and_then (read_field stepJson ''action'' get_string []) (\<lambda>a.
     and_then (read_field stepJson ''target'' get_string []) (\<lambda>t.
     and_then (read_field stepJson ''value'' get_string []) (\<lambda>v.
     and_then (read_field stepJson ''stop_on_failure'' get_bool True) (\<lambda>stop.
     Inr \<lparr>id_step = i, plugin_name = pluginName,
          param = \<lparr>action = a, target = t, val = v, params = Map.empty, timeout = 3000\<rparr>,
          is_optional = False, stop_on_failure = stop\<rparr>))))))"

text \<open>The loop over the array under \<^verbatim>\<open>steps\<close>.\<close>

fun deserializeSteps :: "json list \<Rightarrow> json_error + TestStep list" where
  "deserializeSteps [] = Inr []"
| "deserializeSteps (stepJson # rest) =
     and_then (deserializeStep stepJson) (\<lambda>step.
     and_then (deserializeSteps rest) (\<lambda>stepList. Inr (step # stepList)))"

definition deserializeTestCase :: "json \<Rightarrow> json_error + TestCase" where
  "deserializeTestCase j =
     and_then (read_field j ''id'' get_int 0) (\<lambda>i.
     and_then (read_field j ''name'' get_string []) (\<lambda>n.
     and_then (read_field j ''description'' get_string []) (\<lambda>d.
     and_then (read_field j ''project_id'' get_int 0) (\<lambda>projectId.
     and_then (case find_key j ''steps'' of
                 Some (JArray stepsJson) \<Rightarrow> deserializeSteps stepsJson
               | _ \<Rightarrow> Inr []) (\<lambda>stepList.
     Inr \<lparr>id_case = i, name_case = n, description = d, steps = stepList,
          project_id = projectId, setup_script = [], teardown_script = [],
          created_at = [], last_modified = [], data_set_ids = []\<rparr>)))))"

text \<open>What is left of a step after the round trip.\<close>

definition reloaded_step :: "TestStep \<Rightarrow> TestStep" where
  "reloaded_step step =
     \<lparr>id_step = id_step step, plugin_name = plugin_name step,
      param = \<lparr>action = action (param step), target = target (param step),
               val = val (param step), params = Map.empty, timeout = 3000\<rparr>,
      is_optional = False, stop_on_failure = stop_on_failure step\<rparr>"

lemma deserializeStep_serializeStep: "deserializeStep (serializeStep step) = Inr (reloaded_step step)"
  by (simp add: deserializeStep_def serializeStep_def reloaded_step_def read_field_def
        find_key_def and_then_def get_int_def get_string_def get_bool_def)

lemma deserializeSteps_serializeStep:
  "deserializeSteps (map serializeStep stepList) = Inr (map reloaded_step stepList)"
  by (induction stepList) (simp_all add: deserializeStep_serializeStep and_then_def)

text \<open>
  C10. Deserializing the serialized form of any test case succeeds and yields a case with
  the same id, name, description and project id and, step by step in the same order, the
  same step id, plugin name, action, target, value and \<^verbatim>\<open>stop_on_failure\<close>. Whatever
  the original held, every step comes back with \<^verbatim>\<open>is_optional = false\<close>, no
  \<^verbatim>\<open>params\<close> and the default timeout 3000, and the case comes back without setup
  script, teardown script and data-set ids (and without its two time stamps).
\<close>

theorem serialize_deserialize_roundtrip:
  "deserializeTestCase (serializeTestCase testCase) =
     Inr \<lparr>id_case = id_case testCase, name_case = name_case testCase,
          description = description testCase,
          steps = map (\<lambda>step.
            \<lparr>id_step = id_step step, plugin_name = plugin_name step,
             param = \<lparr>action = action (param step), target = target (param step),
                      val = val (param step), params = Map.empty, timeout = 3000\<rparr>,
             is_optional = False, stop_on_failure = stop_on_failure step\<rparr>) (steps testCase),
          project_id = project_id testCase, setup_script = [], teardown_script = [],
          created_at = [], last_modified = [], data_set_ids = []\<rparr>"
proof -
  have "(\<lambda>step.
            \<lparr>id_step = id_step step, plugin_name = plugin_name step,
             param = \<lparr>action = action (param step), target = target (param step),
                      val = val (param step), params = Map.empty, timeout = 3000\<rparr>,
             is_optional = False, stop_on_failure = stop_on_failure step\<rparr>) = reloaded_step"
    by (simp add: reloaded_step_def fun_eq_iff)
  then show ?thesis
    by (simp add: deserializeTestCase_def serializeTestCase_def read_field_def find_key_def
          and_then_def get_int_def get_string_def deserializeSteps_serializeStep)
qed

text \<open>A case that uses every field, and what the round trip returns for it.\<close>

definition full_case :: TestCase where
  "full_case =
     \<lparr>id_case = 7, name_case = ''Login'', description = ''logs in'',
      steps = [\<lparr>id_step = 1, plugin_name = ''Demo'',
                param = \<lparr>action = ''click'', target = ''ok'', val = ''x'',
                         params = [''retries'' \<mapsto> ''3''], timeout = 5000\<rparr>,
                is_optional = True, stop_on_failure = False\<rparr>],
      project_id = 2, setup_script = ''prepare'', teardown_script = ''cleanup'',
      created_at = ''2024-01-01 00:00:00'', last_modified = ''2024-01-02 00:00:00'',
      data_set_ids = [1, 2]\<rparr>"

theorem serialize_deserialize_roundtrip_example:
  "deserializeTestCase (serializeTestCase full_case) =
     Inr \<lparr>id_case = 7, name_case = ''Login'', description = ''logs in'',
      steps = [\<lparr>id_step = 1, plugin_name = ''Demo'',
                param = \<lparr>action = ''click'', target = ''ok'', val = ''x'',
                         params = Map.empty, timeout = 3000\<rparr>,
                is_optional = False, stop_on_failure = False\<rparr>],
      project_id = 2, setup_script = [], teardown_script = [],
      created_at = [], last_modified = [], data_set_ids = []\<rparr>"
  using serialize_deserialize_roundtrip[of full_case] by (simp add: full_case_def)

end
